theory Spec2Isabelle
  imports Main "HOL-Library.Sublist" "HOL-Library.AList"
begin

section \<open>Errors\<close>

text \<open>
  The message constants of the error module (\<^verbatim>\<open>osRemoveError\<close>, \<^verbatim>\<open>osMkdirError\<close>, ...)
  are declared outside the files verified here; each is kept as a tag of its own. A message
  written inline in the source is \<open>Text\<close> with the literal.
\<close>

datatype msg =
    osRemoveError | osMkdirError | osCopyError | isDirNotADirError
  | runContextGetProfileError | setupTmpFilesError | exportProjectError
  | clearCachedStatesError | filterRunnerRunError
  | jsonUnmarshalError | jsonPathMissingError | jsonPathTypeError | jsonPathParseError
  | createFilterRunnerError
  | Text string

text \<open>
  Go's \<^verbatim>\<open>error\<close> values. \<open>External\<close> is an error handed back by a collaborator (the operating
  system, the fetcher, a filter); \<open>WrappedErrorf m args\<close> is a fresh error; \<open>WrapErrorf e m args\<close>
  wraps \<open>e\<close> (\<^verbatim>\<open>WrapError(err, text)\<close> is the same with no arguments); \<open>PassError e\<close> passes \<open>e\<close> on.
  A Go \<^verbatim>\<open>nil\<close> error is \<open>None\<close> of \<open>error option\<close>.
\<close>

datatype error =
    External string
  | WrappedErrorf msg "string list"
  | WrapErrorf error msg "string list"
  | PassError error

abbreviation WrapError :: "error \<Rightarrow> msg \<Rightarrow> error" where
  "WrapError e m \<equiv> WrapErrorf e m []"

section \<open>The outside world\<close>

text \<open>
  \<^verbatim>\<open>RecycledMoveOrCopySettings\<close>, as the call sites fill it in.
\<close>

record RecycledMoveOrCopySettings =
  canMove :: bool
  saveSourceHashes :: bool
  saveTargetHashes :: bool
  copyTargetAclFromParent :: bool
  reloadSourceHashes :: bool

text \<open>What \<^verbatim>\<open>os.Stat\<close> can answer: a directory, a file, an \<^verbatim>\<open>IsNotExist\<close> error, another error.\<close>

datatype stat_result = StatDir | StatFile | StatNotExist | StatFailed

text \<open>
  Modelled from the spec: the declaration of \<^verbatim>\<open>FilterRunner\<close> and of its variants is not in
  the verified files; section 3 of the specification gives the variants (local, remote, nested
  profile) and their common attributes (identifier, disabled flag, arguments), and the source
  locator of the remote variant. The selectors \<open>GetId\<close> and \<open>IsDisabled\<close> are the methods of the
  same names.
\<close>

datatype FilterRunner =
    LocalFilter (GetId: string) (IsDisabled: bool) (Arguments: "string list")
  | RemoteFilter (GetId: string) (IsDisabled: bool) (Arguments: "string list") (Url: string)
  | ProfileFilter (GetId: string) (IsDisabled: bool) (Arguments: "string list") (ProfileName: string)

text \<open>\<^verbatim>\<open>FilterCollection\<close> and \<^verbatim>\<open>Profile\<close>; the export target is opaque here.\<close>

record FilterCollection =
  Filters :: "FilterRunner list"

record Profile = FilterCollection +
  ExportTarget :: string

text \<open>
  Modelled from the spec: the declarations of \<^verbatim>\<open>Config\<close> and \<^verbatim>\<open>RunContext\<close> are not in the
  verified files; section 3 of the specification gives the project its name, its three optional
  source paths and its mapping from profile names to profiles, and the run context its
  configuration, the name of the active profile and the workspace root.
\<close>

record Config =
  Name :: string
  ResourceFolder :: string
  BehaviorFolder :: string
  DataPath :: string
  Profiles :: "(string \<times> Profile) list"

record RunContext =
  Config :: Config
  Profile :: string
  DotRegolithPath :: string

text \<open>The calls that leave the modelled code and may fail.\<close>

datatype oscall =
    RemoveAll string
  | MkdirAll string
  | CopyDir string string
  | FullRecycledMoveOrCopy string string RecycledMoveOrCopySettings
  | SaveState string
  | ClearStates
  | ExportProject Profile string string string
  | RecycledExportProject Profile string string string
  | GetterGet string string

text \<open>
  Every interaction with the outside is recorded with its answer, oldest first. Debug and info
  logging is not recorded; warnings are.
\<close>

datatype event =
    EvCall oscall "error option"
  | EvStat string stat_result
  | EvWarn string string
  | EvIsInterrupted "string list" bool
  | EvRun FilterRunner bool "error option"

text \<open>
  The environment answers each interaction from the history so far, so the same call may be
  answered differently at different moments of a run.
\<close>

record env =
  outcome :: "event list \<Rightarrow> oscall \<Rightarrow> error option"
  statAnswer :: "event list \<Rightarrow> string \<Rightarrow> stat_result"
  pollAnswer :: "event list \<Rightarrow> string list \<Rightarrow> bool"
  runAnswer :: "event list \<Rightarrow> FilterRunner \<Rightarrow> bool \<times> error option"

text \<open>
  The state threaded through the code: the persisted fingerprint store (the roots whose state is
  saved) and the history.
\<close>

record world =
  store :: "string list"
  trace :: "event list"

definition record_event :: "event \<Rightarrow> world \<Rightarrow> world" where
  "record_event e w = w\<lparr>trace := trace w @ [e]\<rparr>"

definition call :: "env \<Rightarrow> oscall \<Rightarrow> world \<Rightarrow> error option \<times> world" where
  "call env c w = (let r = outcome env (trace w) c in (r, record_event (EvCall c r) w))"

definition os_Stat :: "env \<Rightarrow> string \<Rightarrow> world \<Rightarrow> stat_result \<times> world" where
  "os_Stat env path w =
     (let r = statAnswer env (trace w) path in (r, record_event (EvStat path r) w))"

fun is_call :: "oscall \<Rightarrow> event \<Rightarrow> bool" where
  "is_call c (EvCall c' r) = (c = c')"
| "is_call c _ = False"

definition calls :: "oscall \<Rightarrow> event list \<Rightarrow> nat" where
  "calls c h = length (filter (is_call c) h)"

section \<open>The dependency installer (remote_filters.go)\<close>

definition UrlToPath :: "string \<Rightarrow> string" where
  "UrlToPath url = ''.regolith/cache/'' @ url"

definition FilterNameToUrl :: "string \<Rightarrow> string" where
  "FilterNameToUrl name = ''github.com/Bedrock-OSS/regolith-filters//'' @ name"

definition IsRemoteFilterCached :: "env \<Rightarrow> string \<Rightarrow> world \<Rightarrow> bool \<times> world" where
  "IsRemoteFilterCached env url w =
     (case os_Stat env (UrlToPath url) w of
        (StatDir, w1) \<Rightarrow> (True, w1)
      | (StatFile, w1) \<Rightarrow> (True, w1)
      | (StatNotExist, w1) \<Rightarrow> (False, w1)
      | (StatFailed, w1) \<Rightarrow> (False, w1))"

text \<open>
  \<^verbatim>\<open>log.Fatal\<close> ends the process: \<open>Exited\<close>. Otherwise the function returns its error value,
  which is always \<^verbatim>\<open>nil\<close>.
\<close>

datatype install_result = Exited error | Returned "error option"

definition InstallDependency :: "env \<Rightarrow> string \<Rightarrow> world \<Rightarrow> install_result \<times> world" where
  "InstallDependency env url w =
     (case call env (GetterGet (UrlToPath url) url) w of
        (Some err, w1) \<Rightarrow> (Exited err, w1)
      | (None, w1) \<Rightarrow> (Returned None, w1))"

section \<open>The profile runner\<close>

text \<open>
  \<^verbatim>\<open>filepath.Clean\<close> and \<^verbatim>\<open>filepath.Join\<close> of the Go library, with the separator \<^verbatim>\<open>/\<close>. Cleaning
  splits the path at the separators, drops the empty elements and the elements \<^verbatim>\<open>.\<close>, lets an
  element \<^verbatim>\<open>..\<close> remove the element before it (at the start of a rooted path it is dropped, at
  the start of a relative one it is kept), and joins what is left; the clean form of a relative
  path with no element left is \<^verbatim>\<open>.\<close>. Joining two elements cleans the elements joined with the
  separator, from the first that is not empty; two empty elements give the empty string.
\<close>

fun split_sep :: "string \<Rightarrow> string \<Rightarrow> string list" where
  "split_sep cur [] = [cur]"
| "split_sep cur (c # cs) = (if c = CHR ''/'' then cur # split_sep [] cs else split_sep (cur @ [c]) cs)"

fun clean_step :: "bool \<Rightarrow> string list \<Rightarrow> string \<Rightarrow> string list" where
  "clean_step rooted st e =
     (if e = [] \<or> e = ''.'' then st
      else if e = ''..'' then
        (case st of [] \<Rightarrow> if rooted then [] else [''..'']
         | t # ts \<Rightarrow> if t = ''..'' then ''..'' # st else ts)
      else e # st)"

fun join_sep :: "string list \<Rightarrow> string" where
  "join_sep [] = []"
| "join_sep [x] = x"
| "join_sep (x # y # ys) = x @ ''/'' @ join_sep (y # ys)"

definition clean_elements :: "bool \<Rightarrow> string \<Rightarrow> string list" where
  "clean_elements rooted path = rev (foldl (clean_step rooted) [] (split_sep [] path))"

definition filepath_Clean :: "string \<Rightarrow> string" where
  "filepath_Clean path =
     (if path \<noteq> [] \<and> hd path = CHR ''/'' then ''/'' @ join_sep (clean_elements True path)
      else if clean_elements False path = [] then ''.''
      else join_sep (clean_elements False path))"

definition filepath_Join :: "string \<Rightarrow> string \<Rightarrow> string" where
  "filepath_Join a b =
     (if a \<noteq> [] then filepath_Clean (a @ ''/'' @ b)
      else if b \<noteq> [] then filepath_Clean b
      else [])"

text \<open>
  Modelled from the spec: \<^verbatim>\<open>ClearCachedStates\<close> and \<^verbatim>\<open>SaveStateInDefaultCache\<close> are not in the
  verified files. Section 4.1: saving serialises the fingerprint state of one root to durable
  storage, clearing discards the persisted state of every root. Both return an error value, which
  the callers test; a call that fails leaves the store as it was.
\<close>

definition ClearCachedStates :: "env \<Rightarrow> world \<Rightarrow> error option \<times> world" where
  "ClearCachedStates env w =
     (case call env ClearStates w of
        (None, w1) \<Rightarrow> (None, w1\<lparr>store := []\<rparr>)
      | (Some err, w1) \<Rightarrow> (Some err, w1))"

definition SaveStateInDefaultCache :: "env \<Rightarrow> string \<Rightarrow> world \<Rightarrow> error option \<times> world" where
  "SaveStateInDefaultCache env path w =
     (case call env (SaveState path) w of
        (None, w1) \<Rightarrow> (None, w1\<lparr>store := List.insert path (store w1)\<rparr>)
      | (Some err, w1) \<Rightarrow> (Some err, w1))"

text \<open>
  Modelled from the spec: \<^verbatim>\<open>firstErr\<close> is not in the verified files; it returns the first of
  its arguments that is not \<^verbatim>\<open>nil\<close>.
\<close>

fun firstErr :: "error option list \<Rightarrow> error option" where
  "firstErr [] = None"
| "firstErr (None # es) = firstErr es"
| "firstErr (Some e # es) = Some e"

text \<open>
  Modelled from the spec: \<^verbatim>\<open>RunContext.GetProfile\<close> is not in the verified files; it looks the
  active profile up by its name in the configuration.
\<close>

definition GetProfile :: "RunContext \<Rightarrow> error + Profile" where
  "GetProfile context =
     (case map_of (Profiles (Config context)) (Profile context) of
        None \<Rightarrow> Inl (WrappedErrorf (Text ''Profile not found'') [Profile context])
      | Some p \<Rightarrow> Inr p)"

text \<open>
  \<^verbatim>\<open>RunContext.IsInterrupted\<close> polls the interruption signal and \<^verbatim>\<open>FilterRunner.Run\<close> runs
  one filter; neither is in the verified files and both are answered by the environment. The
  run of a filter is taken to leave the persisted store alone.
\<close>

definition IsInterrupted :: "env \<Rightarrow> string list \<Rightarrow> world \<Rightarrow> bool \<times> world" where
  "IsInterrupted env ignoredSource w =
     (let b = pollAnswer env (trace w) ignoredSource
      in (b, record_event (EvIsInterrupted ignoredSource b) w))"

definition Run :: "env \<Rightarrow> FilterRunner \<Rightarrow> RunContext \<Rightarrow> world \<Rightarrow> (bool \<times> error option) \<times> world" where
  "Run env f context w =
     (let r = runAnswer env (trace w) f
      in (r, record_event (EvRun f (fst r) (snd r)) w))"

subsection \<open>Setting up the workspace\<close>

definition recycle_settings :: RecycledMoveOrCopySettings where
  "recycle_settings =
     \<lparr>canMove = False, saveSourceHashes = False, saveTargetHashes = False,
      copyTargetAclFromParent = False, reloadSourceHashes = True\<rparr>"

definition RecycledSetupTmpFiles ::
  "env \<Rightarrow> Config \<Rightarrow> Profile \<Rightarrow> string \<Rightarrow> world \<Rightarrow> error option \<times> world" where
  "RecycledSetupTmpFiles env config profile dotRegolithPath w =
     (let tmpPath = filepath_Join dotRegolithPath ''tmp'' in
      case call env (MkdirAll tmpPath) w of
        (Some err, w1) \<Rightarrow> (Some (WrapErrorf err osMkdirError [tmpPath]), w1)
      | (None, w1) \<Rightarrow>
      (case (if ResourceFolder config \<noteq> []
            then call env (FullRecycledMoveOrCopy (ResourceFolder config)
                   (filepath_Join tmpPath ''RP'') recycle_settings) w1
            else (None, w1)) of
        (Some err, w2) \<Rightarrow>
          (Some (WrapErrorf err
             (Text ''Failed to setup RP folder in the temporary directory.'') []), w2)
      | (None, w2) \<Rightarrow>
      (case (if BehaviorFolder config \<noteq> []
            then call env (FullRecycledMoveOrCopy (BehaviorFolder config)
                   (filepath_Join tmpPath ''BP'') recycle_settings) w2
            else (None, w2)) of
        (Some err, w3) \<Rightarrow>
          (Some (WrapErrorf err
             (Text ''Failed to setup BP folder in the temporary directory.'') []), w3)
      | (None, w3) \<Rightarrow>
      (case (if DataPath config \<noteq> []
            then call env (FullRecycledMoveOrCopy (DataPath config)
                   (filepath_Join tmpPath ''data'') recycle_settings) w3
            else (None, w3)) of
        (Some err, w4) \<Rightarrow>
          (Some (WrapErrorf err
             (Text ''Failed to setup data folder in the temporary directory.'') []), w4)
      | (None, w4) \<Rightarrow> (None, w4)))))"

text \<open>The closure \<^verbatim>\<open>setup_tmp_directory\<close> of \<^verbatim>\<open>SetupTmpFiles\<close>; it captures \<^verbatim>\<open>tmpPath\<close>.\<close>

definition setup_tmp_directory ::
  "env \<Rightarrow> string \<Rightarrow> string \<Rightarrow> string \<Rightarrow> string \<Rightarrow> world \<Rightarrow> error option \<times> world" where
  "setup_tmp_directory env tmpPath path shortName descriptiveName w =
     (let p = filepath_Join tmpPath shortName in
      if path \<noteq> [] then
        (case os_Stat env path w of
           (StatNotExist, w1) \<Rightarrow>
             (let w2 = record_event (EvWarn descriptiveName path) w1 in
              case call env (MkdirAll p) w2 of
                (Some err, w3) \<Rightarrow> (Some (WrapErrorf err osMkdirError [p]), w3)
              | (None, w3) \<Rightarrow> (None, w3))
         | (StatFailed, w1) \<Rightarrow> (None, w1)
         | (StatDir, w1) \<Rightarrow>
             (case call env (CopyDir path p) w1 of
                (Some err, w2) \<Rightarrow> (Some (WrapErrorf err osCopyError [path, p]), w2)
              | (None, w2) \<Rightarrow> (None, w2))
         | (StatFile, w1) \<Rightarrow> (Some (WrappedErrorf isDirNotADirError [path]), w1))
      else
        (case call env (MkdirAll p) w of
           (Some err, w1) \<Rightarrow> (Some (WrapErrorf err osMkdirError [p]), w1)
         | (None, w1) \<Rightarrow> (None, w1)))"

definition SetupTmpFiles ::
  "env \<Rightarrow> Config \<Rightarrow> Profile \<Rightarrow> string \<Rightarrow> world \<Rightarrow> error option \<times> world" where
  "SetupTmpFiles env config profile dotRegolithPath w =
     (let tmpPath = filepath_Join dotRegolithPath ''tmp'' in
      case call env (RemoveAll tmpPath) w of
        (Some err, w1) \<Rightarrow> (Some (WrapErrorf err osRemoveError [tmpPath]), w1)
      | (None, w1) \<Rightarrow>
      (case call env (MkdirAll tmpPath) w1 of
        (Some err, w2) \<Rightarrow> (Some (WrapErrorf err osMkdirError [tmpPath]), w2)
      | (None, w2) \<Rightarrow>
      (case setup_tmp_directory env tmpPath (ResourceFolder config) ''RP'' ''resource folder'' w2 of
        (Some err, w3) \<Rightarrow>
          (Some (WrapErrorf err
             (Text ''Failed to setup RP folder in the temporary directory.'') []), w3)
      | (None, w3) \<Rightarrow>
      (case setup_tmp_directory env tmpPath (BehaviorFolder config) ''BP'' ''behavior folder'' w3 of
        (Some err, w4) \<Rightarrow>
          (Some (WrapErrorf err
             (Text ''Failed to setup BP folder in the temporary directory.'') []), w4)
      | (None, w4) \<Rightarrow>
      (case setup_tmp_directory env tmpPath (DataPath config) ''data'' ''data folder'' w4 of
        (Some err, w5) \<Rightarrow>
          (Some (WrapErrorf err
             (Text ''Failed to setup data folder in the temporary directory.'') []), w5)
      | (None, w5) \<Rightarrow> (None, w5))))))"

subsection \<open>Running the filters\<close>

text \<open>
  The loop of \<^verbatim>\<open>WatchProfileImpl\<close> over \<^verbatim>\<open>profile.Filters\<close>, from the filter it has reached.
  The result is the Go pair \<^verbatim>\<open>(bool, error)\<close>.
\<close>

fun run_filters ::
  "env \<Rightarrow> RunContext \<Rightarrow> FilterRunner list \<Rightarrow> world \<Rightarrow> (bool \<times> error option) \<times> world" where
  "run_filters env context [] w = ((False, None), w)"
| "run_filters env context (f # rest) w =
     (if IsDisabled f then run_filters env context rest w
      else
        case Run env f context w of
          ((interrupted, Some err), w1) \<Rightarrow>
            (case ClearCachedStates env w1 of
               (Some err1, w2) \<Rightarrow>
                 ((False, Some (WrapErrorf (WrapError err1 clearCachedStatesError)
                                  filterRunnerRunError [GetId f])), w2)
             | (None, w2) \<Rightarrow>
                 ((False, Some (WrapErrorf err filterRunnerRunError [GetId f])), w2))
        | ((interrupted, None), w1) \<Rightarrow>
            if interrupted then ((True, None), w1) else run_filters env context rest w1)"

definition WatchProfileImpl ::
  "env \<Rightarrow> RunContext \<Rightarrow> world \<Rightarrow> (bool \<times> error option) \<times> world" where
  "WatchProfileImpl env context w =
     (case GetProfile context of
        Inl err \<Rightarrow> ((False, Some (WrapErrorf err runContextGetProfileError [])), w)
      | Inr profile \<Rightarrow> run_filters env context (Filters profile) w)"

subsection \<open>The run loops\<close>

text \<open>
  One pass from the label \<^verbatim>\<open>start\<close> ends in \<^verbatim>\<open>goto start\<close> (\<open>Restart\<close>) or in a
  \<^verbatim>\<open>return\<close> (\<open>Finished\<close> with the error value returned).
\<close>

datatype pass = Restart world | Finished "error option" world

text \<open>The closure \<^verbatim>\<open>saveTmp\<close> of \<^verbatim>\<open>RecycledRunProfile\<close>.\<close>

definition saveTmp :: "env \<Rightarrow> RunContext \<Rightarrow> world \<Rightarrow> error option \<times> world" where
  "saveTmp env context w =
     (case SaveStateInDefaultCache env (filepath_Join (DotRegolithPath context) ''tmp/RP'') w of
        (err1, w1) \<Rightarrow>
      (case SaveStateInDefaultCache env (filepath_Join (DotRegolithPath context) ''tmp/BP'') w1 of
        (err2, w2) \<Rightarrow>
      (case SaveStateInDefaultCache env (filepath_Join (DotRegolithPath context) ''tmp/data'') w2 of
        (err3, w3) \<Rightarrow>
      (case firstErr [err1, err2, err3] of
        Some err \<Rightarrow>
          (case ClearCachedStates env w3 of
             (Some err1, w4) \<Rightarrow>
               (Some (WrapError (WrapError err1 clearCachedStatesError)
                        (Text ''Failed to save file path states in cache.'')), w4)
           | (None, w4) \<Rightarrow>
               (Some (WrapError err (Text ''Failed to save file path states in cache.'')), w4))
      | None \<Rightarrow> (None, w3)))))"

definition save_and_restart :: "env \<Rightarrow> RunContext \<Rightarrow> world \<Rightarrow> pass" where
  "save_and_restart env context w =
     (case saveTmp env context w of
        (Some err, w1) \<Rightarrow> Finished (Some (PassError err)) w1
      | (None, w1) \<Rightarrow> Restart w1)"

definition RecycledRunProfile_pass :: "env \<Rightarrow> RunContext \<Rightarrow> world \<Rightarrow> pass" where
  "RecycledRunProfile_pass env context w =
     (case GetProfile context of
        Inl err \<Rightarrow> Finished (Some (WrapErrorf err runContextGetProfileError [])) w
      | Inr profile \<Rightarrow>
      (case RecycledSetupTmpFiles env (Config context) profile (DotRegolithPath context) w of
        (Some err, w1) \<Rightarrow>
          (case ClearCachedStates env w1 of
             (Some err1, w2) \<Rightarrow>
               Finished (Some (WrapErrorf (WrapError err1 clearCachedStatesError)
                                 setupTmpFilesError [DotRegolithPath context])) w2
           | (None, w2) \<Rightarrow>
               Finished (Some (WrapErrorf err setupTmpFilesError [DotRegolithPath context])) w2)
      | (None, w1) \<Rightarrow>
      (case IsInterrupted env [] w1 of
        (True, w2) \<Rightarrow> save_and_restart env context w2
      | (False, w2) \<Rightarrow>
      (case WatchProfileImpl env context w2 of
        ((interrupted, Some err), w3) \<Rightarrow> Finished (Some (PassError err)) w3
      | ((True, None), w3) \<Rightarrow> save_and_restart env context w3
      | ((False, None), w3) \<Rightarrow>
      (case call env (RecycledExportProject profile (Name (Config context))
                       (DataPath (Config context)) (DotRegolithPath context)) w3 of
        (Some err, w4) \<Rightarrow>
          (case ClearCachedStates env w4 of
             (Some err1, w5) \<Rightarrow>
               Finished (Some (WrapError (WrapError err1 clearCachedStatesError)
                                 exportProjectError)) w5
           | (None, w5) \<Rightarrow> Finished (Some (WrapError err exportProjectError)) w5)
      | (None, w4) \<Rightarrow>
      (case IsInterrupted env [''data''] w4 of
        (True, w5) \<Rightarrow> save_and_restart env context w5
      | (False, w5) \<Rightarrow> Finished None w5))))))"

text \<open>
  The \<^verbatim>\<open>goto\<close> loop may run for ever (an interruption at every pass); \<open>fuel\<close> bounds the
  number of passes, and \<open>None\<close> is a run that has not returned within them.
\<close>

fun RecycledRunProfile ::
  "nat \<Rightarrow> env \<Rightarrow> RunContext \<Rightarrow> world \<Rightarrow> (error option \<times> world) option" where
  "RecycledRunProfile 0 env context w = None"
| "RecycledRunProfile (Suc fuel) env context w =
     (case RecycledRunProfile_pass env context w of
        Restart w1 \<Rightarrow> RecycledRunProfile fuel env context w1
      | Finished r w1 \<Rightarrow> Some (r, w1))"

definition RunProfile_pass :: "env \<Rightarrow> RunContext \<Rightarrow> world \<Rightarrow> pass" where
  "RunProfile_pass env context w =
     (case GetProfile context of
        Inl err \<Rightarrow> Finished (Some (WrapErrorf err runContextGetProfileError [])) w
      | Inr profile \<Rightarrow>
      (case SetupTmpFiles env (Config context) profile (DotRegolithPath context) w of
        (Some err, w1) \<Rightarrow>
          Finished (Some (WrapErrorf err setupTmpFilesError [DotRegolithPath context])) w1
      | (None, w1) \<Rightarrow>
      (case IsInterrupted env [] w1 of
        (True, w2) \<Rightarrow> Restart w2
      | (False, w2) \<Rightarrow>
      (case WatchProfileImpl env context w2 of
        ((interrupted, Some err), w3) \<Rightarrow> Finished (Some (PassError err)) w3
      | ((True, None), w3) \<Rightarrow> Restart w3
      | ((False, None), w3) \<Rightarrow>
      (case call env (ExportProject profile (Name (Config context))
                       (DataPath (Config context)) (DotRegolithPath context)) w3 of
        (Some err, w4) \<Rightarrow> Finished (Some (WrapError err exportProjectError)) w4
      | (None, w4) \<Rightarrow>
      (case IsInterrupted env [''data''] w4 of
        (True, w5) \<Rightarrow> Restart w5
      | (False, w5) \<Rightarrow> Finished None w5))))))"

fun RunProfile_loop ::
  "nat \<Rightarrow> env \<Rightarrow> RunContext \<Rightarrow> world \<Rightarrow> (error option \<times> world) option" where
  "RunProfile_loop 0 env context w = None"
| "RunProfile_loop (Suc fuel) env context w =
     (case RunProfile_pass env context w of
        Restart w1 \<Rightarrow> RunProfile_loop fuel env context w1
      | Finished r w1 \<Rightarrow> Some (r, w1))"

text \<open>
  \<^verbatim>\<open>RunProfile\<close> clears the cached states, ignoring the error value, and enters the loop.
\<close>

definition RunProfile ::
  "nat \<Rightarrow> env \<Rightarrow> RunContext \<Rightarrow> world \<Rightarrow> (error option \<times> world) option" where
  "RunProfile fuel env context w =
     (case ClearCachedStates env w of (err, w0) \<Rightarrow> RunProfile_loop fuel env context w0)"

section \<open>Sub-filters of a remote filter\<close>

text \<open>
  The values \<^verbatim>\<open>json.Unmarshal\<close> stores in an \<^verbatim>\<open>interface{}\<close>; an object is kept as the list of
  its members, read with \<open>map_of\<close> and written with \<open>AList.update\<close>, as Go reads and assigns a
  \<^verbatim>\<open>map[string]interface{}\<close>. A number is kept as its literal.
\<close>

datatype json =
    JNull | JBool bool | JNumber string | JString string
  | JArray "json list" | JObject "(string \<times> json) list"

text \<open>
  The functions that \<^verbatim>\<open>subfilterCollection\<close> calls and that are not in the verified files are
  parameters: the download path of the remote filter, the reading and the parsing of the
  manifest, the two constructors, the annotation of errors and the ordinal \<^verbatim>\<open>nth\<close>.
\<close>

record 'inst resolver =
  GetDownloadPath :: "FilterRunner \<Rightarrow> string \<Rightarrow> string"
  ReadFile :: "string \<Rightarrow> error + string"
  Unmarshal :: "string \<Rightarrow> error + (string \<times> json) list"
  FilterInstallerFromObject :: "string \<Rightarrow> (string \<times> json) list \<Rightarrow> error + 'inst"
  CreateFilterRunner :: "'inst \<Rightarrow> (string \<times> json) list \<Rightarrow> error + FilterRunner"
  extraFilterJsonErrorInfo :: "string \<Rightarrow> error \<Rightarrow> error"
  nth_name :: "nat \<Rightarrow> string"

text \<open>
  Modelled from the spec: \<^verbatim>\<open>CopyArguments\<close> is not in the verified files; section 4.2: the
  children inherit the arguments the remote filter was invoked with, not their own.
\<close>

fun CopyArguments :: "FilterRunner \<Rightarrow> FilterRunner \<Rightarrow> FilterRunner" where
  "CopyArguments (LocalFilter i d a) parent = LocalFilter i d (Arguments parent)"
| "CopyArguments (RemoteFilter i d a u) parent = RemoteFilter i d (Arguments parent) u"
| "CopyArguments (ProfileFilter i d a p) parent = ProfileFilter i d (Arguments parent) p"

text \<open>\<^verbatim>\<open>%v\<close> and \<^verbatim>\<open>%d\<close> of a loop index: its decimal digits.\<close>

definition digit :: "nat \<Rightarrow> char" where
  "digit d = ''0123456789'' ! d"

function show_nat :: "nat \<Rightarrow> string" where
  "show_nat n = (if n < 10 then [digit n] else show_nat (n div 10) @ [digit (n mod 10)])"
  by pat_completeness auto
termination
  by (relation "measure id") auto

definition nestedRemoteFilterError :: msg where
  "nestedRemoteFilterError = Text (''Regolith detected a reference to a remote filter inside ''
     @ ''another remote filter.\<newline>''
     @ ''This feature is not supported.\<newline>''
     @ ''Filter name: %s''
     @ ''Filter configuration file: %s\<newline>''
     @ ''JSON path to remote filter reference: filters->%d'')"

definition notInstalledError :: msg where
  "notInstalledError = Text (''Couldn't read filter data from path:\<newline>''
     @ ''%s\<newline>''
     @ ''Did you install the filter?\<newline>''
     @ ''You can install all of the filters by running:\<newline>''
     @ ''regolith install-all'')"

text \<open>The loop of \<^verbatim>\<open>subfilterCollection\<close> over the entries, from index \<open>i\<close>.\<close>

fun subfilter_loop ::
  "'inst resolver \<Rightarrow> FilterRunner \<Rightarrow> string \<Rightarrow> nat \<Rightarrow> json list \<Rightarrow> FilterRunner list
     \<Rightarrow> error + FilterRunner list" where
  "subfilter_loop res f path i [] result = Inr result"
| "subfilter_loop res f path i (entry # rest) result =
     (let jsonPath = ''filters->'' @ show_nat i in
      case entry of
        JObject obj \<Rightarrow>
          (let filterId = GetId f @ '':subfilter'' @ show_nat i in
           case FilterInstallerFromObject res filterId obj of
             Inl err \<Rightarrow>
               Inl (extraFilterJsonErrorInfo res path (WrapErrorf err jsonPathParseError [jsonPath]))
           | Inr filterInstaller \<Rightarrow>
               (case CreateFilterRunner res filterInstaller
                       (AList.update ''filter'' (JString filterId) obj) of
                  Inl err \<Rightarrow>
                    Inl (WrapErrorf err createFilterRunnerError
                           [nth_name res i @ '' filter from '' @ path @ ''.''])
                | Inr filterRunner \<Rightarrow>
                    if is_RemoteFilter filterRunner
                    then Inl (WrappedErrorf nestedRemoteFilterError [GetId f, path, show_nat i])
                    else subfilter_loop res f path (Suc i) rest
                           (result @ [CopyArguments filterRunner f])))
      | _ \<Rightarrow>
          Inl (extraFilterJsonErrorInfo res path
                 (WrappedErrorf jsonPathTypeError [jsonPath, ''object''])))"

definition subfilterCollection ::
  "'inst resolver \<Rightarrow> FilterRunner \<Rightarrow> string \<Rightarrow> error + FilterCollection" where
  "subfilterCollection res f dotRegolithPath =
     (let path = filepath_Join (GetDownloadPath res f dotRegolithPath) ''filter.json'' in
      case ReadFile res path of
        Inl err \<Rightarrow> Inl (WrappedErrorf notInstalledError [path])
      | Inr file \<Rightarrow>
          (case Unmarshal res file of
             Inl err \<Rightarrow> Inl (WrapErrorf err jsonUnmarshalError [path])
           | Inr filterCollection \<Rightarrow>
               (case map_of filterCollection ''filters'' of
                  None \<Rightarrow>
                    Inl (extraFilterJsonErrorInfo res path
                           (WrappedErrorf jsonPathMissingError [''filters'']))
                | Some (JArray filters) \<Rightarrow>
                    (case subfilter_loop res f path 0 filters [] of
                       Inl err \<Rightarrow> Inl err
                     | Inr result \<Rightarrow> Inr \<lparr>Filters = result\<rparr>)
                | Some _ \<Rightarrow>
                    Inl (extraFilterJsonErrorInfo res path
                           (WrappedErrorf jsonPathTypeError [''filters'', ''array''])))))"

section \<open>Vocabulary of the statements\<close>

text \<open>
  The events that a call has added to the history, the enabled filters of a list, the filters
  that a history shows to have run, and the history of filters that run without error and
  without interruption.
\<close>

definition new_events :: "world \<Rightarrow> world \<Rightarrow> event list" where
  "new_events w w' = drop (length (trace w)) (trace w')"

definition enabled :: "FilterRunner list \<Rightarrow> FilterRunner list" where
  "enabled fs = filter (\<lambda>f. \<not> IsDisabled f) fs"

fun ran :: "event list \<Rightarrow> FilterRunner list" where
  "ran [] = []"
| "ran (EvRun f i e # h) = f # ran h"
| "ran (_ # h) = ran h"

definition clean_runs :: "FilterRunner list \<Rightarrow> event list" where
  "clean_runs fs = map (\<lambda>f. EvRun f False None) fs"

text \<open>
  Kinds of events: those of the full copy of the source folders, those of the recycled copy, the
  observations of an interruption (a poll that answers true, a filter that reports it without an
  error), the polls, the saves, the exports. A history is quiet when it holds neither an observed
  interruption nor a save. \<open>polls\<close> counts the polls of a history.
\<close>

fun copy_event :: "event \<Rightarrow> bool" where
  "copy_event (EvCall (MkdirAll p) r) = True"
| "copy_event (EvCall (CopyDir p q) r) = True"
| "copy_event (EvStat p r) = True"
| "copy_event (EvWarn d p) = True"
| "copy_event _ = False"

fun recycle_event :: "event \<Rightarrow> bool" where
  "recycle_event (EvCall (FullRecycledMoveOrCopy p q s) r) = True"
| "recycle_event _ = False"

fun is_interruption :: "event \<Rightarrow> bool" where
  "is_interruption (EvIsInterrupted a b) = b"
| "is_interruption (EvRun f i e) = (i \<and> e = None)"
| "is_interruption _ = False"

fun is_poll :: "event \<Rightarrow> bool" where
  "is_poll (EvIsInterrupted a b) = True"
| "is_poll _ = False"

fun is_save :: "event \<Rightarrow> bool" where
  "is_save (EvCall (SaveState p) r) = True"
| "is_save _ = False"

fun is_export :: "event \<Rightarrow> bool" where
  "is_export (EvCall (ExportProject p n d r) x) = True"
| "is_export (EvCall (RecycledExportProject p n d r) x) = True"
| "is_export _ = False"

definition quiet :: "event list \<Rightarrow> bool" where
  "quiet evs = list_all (\<lambda>e. \<not> is_interruption e \<and> \<not> is_save e) evs"

definition polls :: "event list \<Rightarrow> nat" where
  "polls h = length (filter is_poll h)"

text \<open>
  The world a pass ends in, the three roots that \<^verbatim>\<open>saveTmp\<close> saves and the events of its three
  saves with their answers.
\<close>

fun pass_world :: "pass \<Rightarrow> world" where
  "pass_world (Restart w) = w"
| "pass_world (Finished r w) = w"

definition tmp_roots :: "RunContext \<Rightarrow> string list" where
  "tmp_roots context =
     [filepath_Join (DotRegolithPath context) ''tmp/RP'',
      filepath_Join (DotRegolithPath context) ''tmp/BP'',
      filepath_Join (DotRegolithPath context) ''tmp/data'']"

definition save_events :: "RunContext \<Rightarrow> error option list \<Rightarrow> event list" where
  "save_events context rs = map (\<lambda>(p, r). EvCall (SaveState p) r) (zip (tmp_roots context) rs)"

text \<open>
  What the specification says of one source folder of the full sync, for calls to the operating
  system that succeed: the events expected for a source path of a given kind and a target \<open>p\<close>,
  and whether the folder is a file.
\<close>

definition folder_events :: "stat_result \<Rightarrow> string \<Rightarrow> string \<Rightarrow> string \<Rightarrow> event list" where
  "folder_events kind path p descriptiveName =
     (if path = [] then [EvCall (MkdirAll p) None]
      else case kind of
        StatNotExist \<Rightarrow>
          [EvStat path StatNotExist, EvWarn descriptiveName path, EvCall (MkdirAll p) None]
      | StatFile \<Rightarrow> [EvStat path StatFile]
      | StatDir \<Rightarrow> [EvStat path StatDir, EvCall (CopyDir path p) None]
      | StatFailed \<Rightarrow> [EvStat path StatFailed])"

definition is_file :: "stat_result \<Rightarrow> string \<Rightarrow> bool" where
  "is_file kind path \<longleftrightarrow> path \<noteq> [] \<and> kind = StatFile"

text \<open>
  The child runner that the entry at index \<open>i\<close> yields: the runner created from the entry when
  the entry is an object and both constructors succeed on it.
\<close>

definition child :: "'inst resolver \<Rightarrow> FilterRunner \<Rightarrow> nat \<Rightarrow> json \<Rightarrow> FilterRunner option" where
  "child res f i entry =
     (case entry of
        JObject obj \<Rightarrow>
          (case FilterInstallerFromObject res (GetId f @ '':subfilter'' @ show_nat i) obj of
             Inl err \<Rightarrow> None
           | Inr filterInstaller \<Rightarrow>
               (case CreateFilterRunner res filterInstaller
                       (AList.update ''filter'' (JString (GetId f @ '':subfilter'' @ show_nat i)) obj) of
                  Inl err \<Rightarrow> None
                | Inr filterRunner \<Rightarrow> Some filterRunner))
      | _ \<Rightarrow> None)"

fun children :: "'inst resolver \<Rightarrow> FilterRunner \<Rightarrow> nat \<Rightarrow> json list \<Rightarrow> FilterRunner option list" where
  "children res f i [] = []"
| "children res f i (entry # rest) = child res f i entry # children res f (Suc i) rest"

section \<open>Environments and inputs of the examples\<close>

text \<open>
  Environments: every call succeeds and every path is a directory; every path is missing; every
  path is a file; the RP folder is missing, the BP folder a file and the data folder a
  directory; the filter B fails; the filter B reports an interruption; the first poll
  answers an interruption; the first two polls do; every save fails.
\<close>

definition cached_env :: env where
  "cached_env = \<lparr>outcome = (\<lambda>h c. None), statAnswer = (\<lambda>h p. StatDir),
                 pollAnswer = (\<lambda>h a. False), runAnswer = (\<lambda>h f. (False, None))\<rparr>"

definition missing_env :: env where
  "missing_env = \<lparr>outcome = (\<lambda>h c. None), statAnswer = (\<lambda>h p. StatNotExist),
                  pollAnswer = (\<lambda>h a. False), runAnswer = (\<lambda>h f. (False, None))\<rparr>"

definition file_env :: env where
  "file_env = \<lparr>outcome = (\<lambda>h c. None), statAnswer = (\<lambda>h p. StatFile),
               pollAnswer = (\<lambda>h a. False), runAnswer = (\<lambda>h f. (False, None))\<rparr>"

definition mixed_env :: env where
  "mixed_env = \<lparr>outcome = (\<lambda>h c. None),
     statAnswer = (\<lambda>h p. if p = ''packs/RP'' then StatNotExist
                          else if p = ''packs/BP'' then StatFile else StatDir),
     pollAnswer = (\<lambda>h a. False), runAnswer = (\<lambda>h f. (False, None))\<rparr>"

definition failing_env :: env where
  "failing_env = \<lparr>outcome = (\<lambda>h c. None), statAnswer = (\<lambda>h p. StatDir),
     pollAnswer = (\<lambda>h a. False),
     runAnswer = (\<lambda>h f. if GetId f = ''B'' then (False, Some (External ''exit status 1''))
                         else (False, None))\<rparr>"

definition interrupting_env :: env where
  "interrupting_env = \<lparr>outcome = (\<lambda>h c. None), statAnswer = (\<lambda>h p. StatDir),
     pollAnswer = (\<lambda>h a. False),
     runAnswer = (\<lambda>h f. if GetId f = ''B'' then (True, None) else (False, None))\<rparr>"

definition interrupted_once_env :: env where
  "interrupted_once_env = \<lparr>outcome = (\<lambda>h c. None), statAnswer = (\<lambda>h p. StatDir),
     pollAnswer = (\<lambda>h a. \<not> list_ex is_poll h), runAnswer = (\<lambda>h f. (False, None))\<rparr>"

definition twice_interrupted_env :: env where
  "twice_interrupted_env = \<lparr>outcome = (\<lambda>h c. None), statAnswer = (\<lambda>h p. StatDir),
     pollAnswer = (\<lambda>h a. polls h < 2), runAnswer = (\<lambda>h f. (False, None))\<rparr>"

definition save_failing_env :: env where
  "save_failing_env = \<lparr>outcome = (\<lambda>h c. case c of SaveState p \<Rightarrow> Some (External ''disk full'')
                                          | _ \<Rightarrow> None),
     statAnswer = (\<lambda>h p. StatDir),
     pollAnswer = (\<lambda>h a. \<not> list_ex is_poll h), runAnswer = (\<lambda>h f. (False, None))\<rparr>"

text \<open>
  Environments in which the cache cannot be cleared: with a failing filter B; with nothing else
  failing; with the saves failing too, after a first poll that answers an interruption. And an
  environment in which the data folder changes during the export: a poll sees the change unless
  it is told to ignore the source \<^verbatim>\<open>data\<close>, which is how the source comments the poll after the
  export (\<^verbatim>\<open>Ignore the interruptions from the data path\<close>).
\<close>

definition clear_failing_env :: env where
  "clear_failing_env = \<lparr>outcome = (\<lambda>h c. case c of ClearStates \<Rightarrow> Some (External ''cache locked'')
                                           | _ \<Rightarrow> None),
     statAnswer = (\<lambda>h p. StatDir), pollAnswer = (\<lambda>h a. False),
     runAnswer = (\<lambda>h f. if GetId f = ''B'' then (False, Some (External ''exit status 1''))
                         else (False, None))\<rparr>"

definition unclearable_env :: env where
  "unclearable_env = \<lparr>outcome = (\<lambda>h c. case c of ClearStates \<Rightarrow> Some (External ''cache locked'')
                                         | _ \<Rightarrow> None),
     statAnswer = (\<lambda>h p. StatDir), pollAnswer = (\<lambda>h a. False),
     runAnswer = (\<lambda>h f. (False, None))\<rparr>"

definition locked_cache_env :: env where
  "locked_cache_env = \<lparr>outcome = (\<lambda>h c. case c of ClearStates \<Rightarrow> Some (External ''cache locked'')
                                          | SaveState p \<Rightarrow> Some (External ''cache locked'')
                                          | _ \<Rightarrow> None),
     statAnswer = (\<lambda>h p. StatDir), pollAnswer = (\<lambda>h a. \<not> list_ex is_poll h),
     runAnswer = (\<lambda>h f. (False, None))\<rparr>"

definition data_change_env :: env where
  "data_change_env = \<lparr>outcome = (\<lambda>h c. None), statAnswer = (\<lambda>h p. StatDir),
     pollAnswer = (\<lambda>h ignoredSource. list_ex is_export h \<and> ''data'' \<notin> set ignoredSource),
     runAnswer = (\<lambda>h f. (False, None))\<rparr>"

text \<open>
  The world of a first run, a world with a root left in the persisted store, a project whose
  profile has a disabled filter A and a filter B, and one with three enabled filters.
\<close>

definition fresh_world :: world where
  "fresh_world = \<lparr>store = [], trace = []\<rparr>"

definition cached_world :: world where
  "cached_world = \<lparr>store = [''.regolith/tmp/RP''], trace = []\<rparr>"

definition example_config :: Config where
  "example_config = \<lparr>Name = ''pack'', ResourceFolder = ''packs/RP'', BehaviorFolder = ''packs/BP'',
     DataPath = ''packs/data'',
     Profiles = [(''default'', \<lparr>Filters = [LocalFilter ''A'' True [], LocalFilter ''B'' False []],
                                ExportTarget = ''local''\<rparr>)]\<rparr>"

definition example_context :: RunContext where
  "example_context = \<lparr>Config = example_config, Profile = ''default'', DotRegolithPath = ''.regolith''\<rparr>"

definition three_filters :: RunContext where
  "three_filters = \<lparr>Config = \<lparr>Name = ''pack'', ResourceFolder = ''packs/RP'',
       BehaviorFolder = ''packs/BP'', DataPath = ''packs/data'',
       Profiles = [(''default'',
         \<lparr>Filters = [LocalFilter ''A'' False [], LocalFilter ''B'' False [], LocalFilter ''C'' False []],
          ExportTarget = ''local''\<rparr>)]\<rparr>,
     Profile = ''default'', DotRegolithPath = ''.regolith''\<rparr>"

text \<open>
  The worlds in which the example passes end: after an interruption in recycled mode, after a
  failed save, after an interruption in full mode.
\<close>

definition persisted_world :: world where
  "persisted_world =
     \<lparr>store = [''.regolith/tmp/data'', ''.regolith/tmp/BP'', ''.regolith/tmp/RP''],
      trace =
        [EvCall (MkdirAll ''.regolith/tmp'') None,
         EvCall (FullRecycledMoveOrCopy ''packs/RP'' ''.regolith/tmp/RP'' recycle_settings) None,
         EvCall (FullRecycledMoveOrCopy ''packs/BP'' ''.regolith/tmp/BP'' recycle_settings) None,
         EvCall (FullRecycledMoveOrCopy ''packs/data'' ''.regolith/tmp/data'' recycle_settings) None,
         EvIsInterrupted [] True,
         EvCall (SaveState ''.regolith/tmp/RP'') None,
         EvCall (SaveState ''.regolith/tmp/BP'') None,
         EvCall (SaveState ''.regolith/tmp/data'') None]\<rparr>"

definition save_failed_world :: world where
  "save_failed_world =
     \<lparr>store = [],
      trace =
        [EvCall (MkdirAll ''.regolith/tmp'') None,
         EvCall (FullRecycledMoveOrCopy ''packs/RP'' ''.regolith/tmp/RP'' recycle_settings) None,
         EvCall (FullRecycledMoveOrCopy ''packs/BP'' ''.regolith/tmp/BP'' recycle_settings) None,
         EvCall (FullRecycledMoveOrCopy ''packs/data'' ''.regolith/tmp/data'' recycle_settings) None,
         EvIsInterrupted [] True,
         EvCall (SaveState ''.regolith/tmp/RP'') (Some (External ''disk full'')),
         EvCall (SaveState ''.regolith/tmp/BP'') (Some (External ''disk full'')),
         EvCall (SaveState ''.regolith/tmp/data'') (Some (External ''disk full'')),
         EvCall ClearStates None]\<rparr>"

definition restarted_world :: world where
  "restarted_world =
     \<lparr>store = [],
      trace =
        [EvCall (RemoveAll ''.regolith/tmp'') None,
         EvCall (MkdirAll ''.regolith/tmp'') None,
         EvStat ''packs/RP'' StatDir,
         EvCall (CopyDir ''packs/RP'' ''.regolith/tmp/RP'') None,
         EvStat ''packs/BP'' StatDir,
         EvCall (CopyDir ''packs/BP'' ''.regolith/tmp/BP'') None,
         EvStat ''packs/data'' StatDir,
         EvCall (CopyDir ''packs/data'' ''.regolith/tmp/data'') None,
         EvIsInterrupted [] True]\<rparr>"

text \<open>
  A resolver with two installed packages: the manifest of P lists two local filters, the
  manifest of Q a local filter and a reference to a remote filter.
\<close>

definition example_resolver :: "string resolver" where
  "example_resolver =
     \<lparr>GetDownloadPath = (\<lambda>f dot. filepath_Join dot (''cache/filters/'' @ GetId f)),
      ReadFile = (\<lambda>p. if p = ''.regolith/cache/filters/P/filter.json'' then Inr ''local''
                       else if p = ''.regolith/cache/filters/Q/filter.json'' then Inr ''nested''
                       else Inl (External ''no such file'')),
      Unmarshal = (\<lambda>s. if s = ''local''
                        then Inr [(''filters'', JArray [JObject [(''runWith'', JString ''python'')],
                                                        JObject [(''runWith'', JString ''nodejs'')]])]
                        else Inr [(''filters'', JArray [JObject [(''runWith'', JString ''python'')],
                                                        JObject [(''url'', JString ''github.com/x/y'')]])]),
      FilterInstallerFromObject = (\<lambda>filterId obj. Inr filterId),
      CreateFilterRunner = (\<lambda>inst obj.
         case map_of obj ''filter'' of
           Some (JString s) \<Rightarrow>
             (case map_of obj ''url'' of
                Some (JString u) \<Rightarrow> Inr (RemoteFilter s False [] u)
              | _ \<Rightarrow> Inr (LocalFilter s False []))
         | _ \<Rightarrow> Inl (External ''no filter key'')),
      extraFilterJsonErrorInfo = (\<lambda>p e. WrapErrorf e (Text ''Invalid filter.json'') [p]),
      nth_name = (\<lambda>i. show_nat (Suc i))\<rparr>"

definition parent_P :: FilterRunner where
  "parent_P = RemoteFilter ''P'' False [''--fast''] ''github.com/x/P''"

definition parent_Q :: FilterRunner where
  "parent_Q = RemoteFilter ''Q'' False [''--fast''] ''github.com/x/Q''"

section \<open>Facts about the interaction primitives\<close>

lemmas Join_simps = filepath_Join_def filepath_Clean_def clean_elements_def

lemma calls_append [simp]: "calls c (h @ h') = calls c h + calls c h'"
  by (simp add: calls_def)

lemma calls_Nil [simp]: "calls c [] = 0"
  by (simp add: calls_def)

lemma calls_Cons [simp]: "calls c (e # h) = (if is_call c e then Suc (calls c h) else calls c h)"
  by (simp add: calls_def)

lemma trace_call [simp]:
  "trace (snd (call env c w)) = trace w @ [EvCall c (outcome env (trace w) c)]"
  by (simp add: call_def record_event_def Let_def)

lemma store_call [simp]: "store (snd (call env c w)) = store w"
  by (simp add: call_def record_event_def Let_def)

lemma fst_call [simp]: "fst (call env c w) = outcome env (trace w) c"
  by (simp add: call_def Let_def)

section \<open>The installer fetches on every call\<close>

lemma InstallDependency_trace:
  "trace (snd (InstallDependency env url w)) =
     trace w @ [EvCall (GetterGet (UrlToPath url) url)
                  (outcome env (trace w) (GetterGet (UrlToPath url) url))]"
  by (simp add: InstallDependency_def call_def record_event_def Let_def split: option.splits)

text \<open>
  C1, as stated, fails: with the cache path of the locator present (\<^verbatim>\<open>IsRemoteFilterCached\<close>
  answers true), two calls of \<^verbatim>\<open>InstallDependency\<close> in succession fetch twice.
\<close>

theorem InstallDependency_refetches_cached:
  "fst (IsRemoteFilterCached cached_env ''texture_list'' fresh_world) = True \<and>
   fst (InstallDependency cached_env ''texture_list'' fresh_world) = Returned None \<and>
   fst (IsRemoteFilterCached cached_env ''texture_list''
          (snd (InstallDependency cached_env ''texture_list'' fresh_world))) = True \<and>
   trace (snd (InstallDependency cached_env ''texture_list''
            (snd (InstallDependency cached_env ''texture_list'' fresh_world))))
     = [EvCall (GetterGet ''.regolith/cache/texture_list'' ''texture_list'') None,
        EvCall (GetterGet ''.regolith/cache/texture_list'' ''texture_list'') None] \<and>
   calls (GetterGet (UrlToPath ''texture_list'') ''texture_list'')
     (trace (snd (InstallDependency cached_env ''texture_list''
        (snd (InstallDependency cached_env ''texture_list'' fresh_world))))) = 2"
  by (simp add: IsRemoteFilterCached_def InstallDependency_def os_Stat_def call_def
      record_event_def cached_env_def fresh_world_def UrlToPath_def Let_def)

text \<open>
  C1, amended: \<^verbatim>\<open>InstallDependency\<close> derives the local path \<^verbatim>\<open>.regolith/cache/<locator>\<close> and
  fetches into it on every call, whether or not the path exists: one call adds exactly one fetch
  of the locator to the history, and when the first call returns, two calls in succession add
  exactly two.
\<close>

theorem InstallDependency_fetches_every_time:
  "calls (GetterGet (''.regolith/cache/'' @ url) url) (trace (snd (InstallDependency env url w)))
     = Suc (calls (GetterGet (''.regolith/cache/'' @ url) url) (trace w)) \<and>
   (fst (InstallDependency env url w) = Returned None \<longrightarrow>
      calls (GetterGet (''.regolith/cache/'' @ url) url)
        (trace (snd (InstallDependency env url (snd (InstallDependency env url w)))))
      = calls (GetterGet (''.regolith/cache/'' @ url) url) (trace w) + 2)"
  by (simp add: InstallDependency_trace UrlToPath_def)

theorem InstallDependency_fetches_every_time_witness:
  "fst (InstallDependency cached_env ''texture_list'' fresh_world) = Returned None \<and>
   calls (GetterGet (''.regolith/cache/'' @ ''texture_list'') ''texture_list'')
     (trace (snd (InstallDependency cached_env ''texture_list''
        (snd (InstallDependency cached_env ''texture_list'' fresh_world))))) = 2"
  using InstallDependency_fetches_every_time [of "''texture_list''" cached_env fresh_world]
  by (simp add: InstallDependency_def call_def record_event_def cached_env_def fresh_world_def
      Let_def)

section \<open>The filter loop\<close>

lemma trace_record_event [simp]: "trace (record_event e w) = trace w @ [e]"
  by (simp add: record_event_def)

lemma store_record_event [simp]: "store (record_event e w) = store w"
  by (simp add: record_event_def)

lemma Run_eq:
  "Run env f c w = (runAnswer env (trace w) f,
     record_event (EvRun f (fst (runAnswer env (trace w) f)) (snd (runAnswer env (trace w) f))) w)"
  by (simp add: Run_def Let_def)

lemma ClearCachedStates_eq:
  "ClearCachedStates env w =
     (outcome env (trace w) ClearStates,
      (record_event (EvCall ClearStates (outcome env (trace w) ClearStates)) w)
        \<lparr>store := (if outcome env (trace w) ClearStates = None then [] else store w)\<rparr>)"
  by (simp add: ClearCachedStates_def call_def Let_def record_event_def split: option.splits)

text \<open>
  The three ways in which the loop over the filters ends: every enabled filter has run without
  error or interruption; an enabled filter has reported an interruption, after which the loop
  stops; an enabled filter has returned an error, after which the cached states are cleared and
  the loop stops. The store changes in the last case only.
\<close>

lemma run_filters_cases:
  "run_filters env c fs w = (r, w') \<Longrightarrow>
   (r = (False, None) \<and> trace w' = trace w @ clean_runs (enabled fs) \<and> store w' = store w) \<or>
   (\<exists>pre f post. r = (True, None) \<and> enabled fs = pre @ f # post \<and>
      trace w' = trace w @ clean_runs pre @ [EvRun f True None] \<and> store w' = store w) \<or>
   (\<exists>pre f post i e cl. enabled fs = pre @ f # post \<and>
      trace w' = trace w @ clean_runs pre @ [EvRun f i (Some e), EvCall ClearStates cl] \<and>
      r = (False, Some (WrapErrorf (case cl of None \<Rightarrow> e | Some e1 \<Rightarrow> WrapError e1 clearCachedStatesError)
                 filterRunnerRunError [GetId f])) \<and>
      store w' = (if cl = None then [] else store w))"
proof (induction fs arbitrary: w)
  case Nil
  then show ?case by (simp add: enabled_def clean_runs_def)
next
  case (Cons f fs)
  show ?case
  proof (cases "IsDisabled f")
    case True
    with Cons.prems have "run_filters env c fs w = (r, w')" by simp
    from Cons.IH [OF this] True show ?thesis by (simp add: enabled_def)
  next
    case en: False
    obtain i e where ans: "runAnswer env (trace w) f = (i, e)" by (cases "runAnswer env (trace w) f")
    let ?w1 = "record_event (EvRun f i e) w"
    have en_eq: "enabled (f # fs) = f # enabled fs" using en by (simp add: enabled_def)
    show ?thesis
    proof (cases e)
      case (Some err)
      let ?cl = "outcome env (trace ?w1) ClearStates"
      have r: "r = (False, Some (WrapErrorf (case ?cl of None \<Rightarrow> err | Some e1 \<Rightarrow> WrapError e1 clearCachedStatesError)
                 filterRunnerRunError [GetId f]))"
        and w': "w' = (record_event (EvCall ClearStates ?cl) ?w1)\<lparr>store := (if ?cl = None then [] else store ?w1)\<rparr>"
        using Cons.prems en ans Some
        by (auto simp: Run_eq ClearCachedStates_eq split: option.splits)
      have "enabled (f # fs) = [] @ f # enabled fs" using en_eq by simp
      moreover have "trace w' = trace w @ clean_runs [] @ [EvRun f i (Some err), EvCall ClearStates ?cl]"
        using w' Some by (simp add: clean_runs_def)
      moreover have "store w' = (if ?cl = None then [] else store w)" using w' by simp
      ultimately show ?thesis using r by blast
    next
      case None
      show ?thesis
      proof (cases i)
        case True
        have "r = (True, None)" "w' = ?w1"
          using Cons.prems en ans None True by (auto simp: Run_eq)
        moreover have "enabled (f # fs) = [] @ f # enabled fs" using en_eq by simp
        ultimately have "r = (True, None) \<and> enabled (f # fs) = [] @ f # enabled fs \<and>
          trace w' = trace w @ clean_runs [] @ [EvRun f True None] \<and> store w' = store w"
          using True None by (simp add: clean_runs_def)
        then show ?thesis by blast
      next
        case False
        have rec: "run_filters env c fs ?w1 = (r, w')"
          using Cons.prems en ans None False by (auto simp: Run_eq)
        have tw1: "trace ?w1 = trace w @ [EvRun f False None]" using None False by simp
        from Cons.IH [OF rec] consider
          (a) "r = (False, None)" "trace w' = trace ?w1 @ clean_runs (enabled fs)" "store w' = store ?w1"
          | (b) pre g post where "r = (True, None)" "enabled fs = pre @ g # post"
              "trace w' = trace ?w1 @ clean_runs pre @ [EvRun g True None]" "store w' = store ?w1"
          | (c) pre g post j e' cl where "enabled fs = pre @ g # post"
              "trace w' = trace ?w1 @ clean_runs pre @ [EvRun g j (Some e'), EvCall ClearStates cl]"
              "r = (False, Some (WrapErrorf (case cl of None \<Rightarrow> e' | Some e1 \<Rightarrow> WrapError e1 clearCachedStatesError)
                 filterRunnerRunError [GetId g]))"
              "store w' = (if cl = None then [] else store ?w1)"
          by blast
        then show ?thesis
        proof cases
          case a
          then show ?thesis using en_eq tw1 by (simp add: clean_runs_def)
        next
          case b
          have "enabled (f # fs) = (f # pre) @ g # post" using en_eq b by simp
          moreover have "trace w' = trace w @ clean_runs (f # pre) @ [EvRun g True None]"
            using b tw1 by (simp add: clean_runs_def)
          moreover have "store w' = store w" using b by simp
          ultimately show ?thesis using b(1) by blast
        next
          case c
          have "enabled (f # fs) = (f # pre) @ g # post" using en_eq c by simp
          moreover have "trace w' = trace w @ clean_runs (f # pre) @ [EvRun g j (Some e'), EvCall ClearStates cl]"
            using c tw1 by (simp add: clean_runs_def)
          moreover have "store w' = (if cl = None then [] else store w)" using c by simp
          ultimately show ?thesis using c(3) by blast
        qed
      qed
    qed
  qed
qed

section \<open>The events of the workspace setup\<close>

lemma new_events_append: "trace w' = trace w @ evs \<Longrightarrow> new_events w w' = evs"
  by (simp add: new_events_def)

lemma call_eq:
  "call env c w = (outcome env (trace w) c, record_event (EvCall c (outcome env (trace w) c)) w)"
  by (simp add: call_def Let_def)

lemma os_Stat_eq:
  "os_Stat env p w = (statAnswer env (trace w) p, record_event (EvStat p (statAnswer env (trace w) p)) w)"
  by (simp add: os_Stat_def Let_def)

lemma IsInterrupted_eq:
  "IsInterrupted env a w =
     (pollAnswer env (trace w) a, record_event (EvIsInterrupted a (pollAnswer env (trace w) a)) w)"
  by (simp add: IsInterrupted_def Let_def)

lemma SaveStateInDefaultCache_eq:
  "SaveStateInDefaultCache env p w =
     (outcome env (trace w) (SaveState p),
      (record_event (EvCall (SaveState p) (outcome env (trace w) (SaveState p))) w)
        \<lparr>store := (if outcome env (trace w) (SaveState p) = None
                    then List.insert p (store w) else store w)\<rparr>)"
  by (simp add: SaveStateInDefaultCache_def call_eq record_event_def split: option.splits)

text \<open>
  The workspace setup only stats, warns, makes directories and copies, after the one
  \<^verbatim>\<open>os.RemoveAll\<close> of the full setup or the one \<^verbatim>\<open>os.MkdirAll\<close> of the recycled setup, and leaves
  the store alone.
\<close>

lemma setup_tmp_directory_events:
  "setup_tmp_directory env tmp path short descr w = (r, w') \<Longrightarrow>
   \<exists>evs. trace w' = trace w @ evs \<and> list_all copy_event evs \<and> store w' = store w"
  by (auto simp: setup_tmp_directory_def Let_def os_Stat_eq call_eq
      split: if_splits stat_result.splits option.splits)

lemma SetupTmpFiles_events:
  assumes "SetupTmpFiles env config profile dot w = (r, w')"
  shows "\<exists>evs. trace w' = trace w @
            EvCall (RemoveAll (filepath_Join dot ''tmp''))
              (outcome env (trace w) (RemoveAll (filepath_Join dot ''tmp''))) # evs
          \<and> list_all copy_event evs \<and> store w' = store w"
proof -
  let ?tmp = "filepath_Join dot ''tmp''"
  let ?x = "outcome env (trace w) (RemoveAll ?tmp)"
  let ?w1 = "record_event (EvCall (RemoveAll ?tmp) ?x) w"
  show ?thesis
  proof (cases ?x)
    case (Some e)
    with assms have "w' = ?w1" by (simp add: SetupTmpFiles_def Let_def call_eq)
    then show ?thesis by simp
  next
    case x: None
    let ?y = "outcome env (trace ?w1) (MkdirAll ?tmp)"
    let ?w2 = "record_event (EvCall (MkdirAll ?tmp) ?y) ?w1"
    show ?thesis
    proof (cases ?y)
      case (Some e)
      with assms x have "w' = ?w2" by (simp add: SetupTmpFiles_def Let_def call_eq)
      then show ?thesis by simp
    next
      case y: None
      obtain r3 w3 where s3: "setup_tmp_directory env ?tmp (ResourceFolder config) ''RP'' ''resource folder'' ?w2 = (r3, w3)"
        by (cases "setup_tmp_directory env ?tmp (ResourceFolder config) ''RP'' ''resource folder'' ?w2")
      from setup_tmp_directory_events [OF s3] obtain e3 where
        e3: "trace w3 = trace ?w2 @ e3" "list_all copy_event e3" "store w3 = store ?w2" by blast
      show ?thesis
      proof (cases r3)
        case (Some e)
        with assms x y s3 have "w' = w3" by (simp add: SetupTmpFiles_def Let_def call_eq)
        then show ?thesis using e3 by simp
      next
        case r3: None
        obtain r4 w4 where s4: "setup_tmp_directory env ?tmp (BehaviorFolder config) ''BP'' ''behavior folder'' w3 = (r4, w4)"
          by (cases "setup_tmp_directory env ?tmp (BehaviorFolder config) ''BP'' ''behavior folder'' w3")
        from setup_tmp_directory_events [OF s4] obtain e4 where
          e4: "trace w4 = trace w3 @ e4" "list_all copy_event e4" "store w4 = store w3" by blast
        show ?thesis
        proof (cases r4)
          case (Some e)
          with assms x y s3 r3 s4 have "w' = w4" by (simp add: SetupTmpFiles_def Let_def call_eq)
          then show ?thesis using e3 e4 by simp
        next
          case r4: None
          obtain r5 w5 where s5: "setup_tmp_directory env ?tmp (DataPath config) ''data'' ''data folder'' w4 = (r5, w5)"
            by (cases "setup_tmp_directory env ?tmp (DataPath config) ''data'' ''data folder'' w4")
          from setup_tmp_directory_events [OF s5] obtain e5 where
            e5: "trace w5 = trace w4 @ e5" "list_all copy_event e5" "store w5 = store w4" by blast
          from assms x y s3 r3 s4 r4 s5 have "w' = w5"
            by (simp add: SetupTmpFiles_def Let_def call_eq split: option.splits)
          then show ?thesis using e3 e4 e5 by simp
        qed
      qed
    qed
  qed
qed

lemma RecycledSetupTmpFiles_events:
  assumes "RecycledSetupTmpFiles env config profile dot w = (r, w')"
  shows "\<exists>evs. trace w' = trace w @
            EvCall (MkdirAll (filepath_Join dot ''tmp''))
              (outcome env (trace w) (MkdirAll (filepath_Join dot ''tmp''))) # evs
          \<and> list_all recycle_event evs \<and> store w' = store w"
  using assms
  by (auto simp: RecycledSetupTmpFiles_def Let_def call_eq split: if_splits option.splits)

lemma setup_file_fails:
  assumes "path \<noteq> []" "\<forall>h. statAnswer env h path = StatFile"
  shows "setup_tmp_directory env tmp path short descr w \<noteq> (None, w')"
  using assms by (simp add: setup_tmp_directory_def Let_def os_Stat_eq)

lemma SetupTmpFiles_file_fails:
  assumes "path \<in> {ResourceFolder config, BehaviorFolder config, DataPath config}"
    and "path \<noteq> []" and "\<forall>h. statAnswer env h path = StatFile"
  shows "fst (SetupTmpFiles env config profile dot w) \<noteq> None"
proof -
  note f = setup_file_fails [OF assms(2,3)]
  from assms(1) consider "path = ResourceFolder config" | "path = BehaviorFolder config"
    | "path = DataPath config" by blast
  then show ?thesis
  proof cases
    case 1
    show ?thesis using f unfolding 1
      by (auto simp: SetupTmpFiles_def Let_def split: prod.splits option.splits)
  next
    case 2
    show ?thesis using f unfolding 2
      by (auto simp: SetupTmpFiles_def Let_def split: prod.splits option.splits)
  next
    case 3
    show ?thesis using f unfolding 3
      by (auto simp: SetupTmpFiles_def Let_def split: prod.splits option.splits)
  qed
qed

lemma setup_tmp_directory_ok:
  assumes "\<forall>h x. outcome env h x = None" "\<forall>h q. statAnswer env h q \<noteq> StatFile"
  shows "setup_tmp_directory env tmp path short descr w \<noteq> (Some e, w')"
  using assms
  by (auto simp: setup_tmp_directory_def Let_def os_Stat_eq call_eq split: stat_result.splits)

lemma SetupTmpFiles_ok:
  assumes "\<forall>h x. outcome env h x = None" "\<forall>h q. statAnswer env h q \<noteq> StatFile"
  shows "fst (SetupTmpFiles env cfg p dot w) = None"
  using setup_tmp_directory_ok [OF assms] assms(1)
  by (auto simp: SetupTmpFiles_def Let_def call_eq split: prod.splits option.splits)

lemma setup_tmp_directory_exact:
  assumes "\<forall>h x. outcome env h x = None" and "\<forall>h. statAnswer env h path = kind"
  shows "setup_tmp_directory env tmp path short descr w =
     (if is_file kind path then Some (WrappedErrorf isDirNotADirError [path]) else None,
      w\<lparr>trace := trace w @ folder_events kind path (filepath_Join tmp short) descr\<rparr>)"
  using assms
  by (cases kind)
     (simp_all add: setup_tmp_directory_def Let_def os_Stat_eq call_eq record_event_def
        folder_events_def is_file_def)

lemma SetupTmpFiles_exact:
  assumes ok: "\<forall>h x. outcome env h x = None" and kind: "\<forall>h q. statAnswer env h q = kind q"
  shows "SetupTmpFiles env config profile dot w =
     (let tmp = filepath_Join dot ''tmp'';
          start = [EvCall (RemoveAll tmp) None, EvCall (MkdirAll tmp) None];
          rp = folder_events (kind (ResourceFolder config)) (ResourceFolder config)
                 (filepath_Join tmp ''RP'') ''resource folder'';
          bp = folder_events (kind (BehaviorFolder config)) (BehaviorFolder config)
                 (filepath_Join tmp ''BP'') ''behavior folder'';
          data = folder_events (kind (DataPath config)) (DataPath config)
                 (filepath_Join tmp ''data'') ''data folder''
      in if is_file (kind (ResourceFolder config)) (ResourceFolder config)
         then (Some (WrapError (WrappedErrorf isDirNotADirError [ResourceFolder config])
                       (Text ''Failed to setup RP folder in the temporary directory.'')),
               w\<lparr>trace := trace w @ start @ rp\<rparr>)
         else if is_file (kind (BehaviorFolder config)) (BehaviorFolder config)
         then (Some (WrapError (WrappedErrorf isDirNotADirError [BehaviorFolder config])
                       (Text ''Failed to setup BP folder in the temporary directory.'')),
               w\<lparr>trace := trace w @ start @ rp @ bp\<rparr>)
         else if is_file (kind (DataPath config)) (DataPath config)
         then (Some (WrapError (WrappedErrorf isDirNotADirError [DataPath config])
                       (Text ''Failed to setup data folder in the temporary directory.'')),
               w\<lparr>trace := trace w @ start @ rp @ bp @ data\<rparr>)
         else (None, w\<lparr>trace := trace w @ start @ rp @ bp @ data\<rparr>))"
proof -
  have k: "\<And>path. \<forall>h. statAnswer env h path = kind path" using kind by simp
  note ex = setup_tmp_directory_exact [OF ok k]
  show ?thesis
    using ok by (simp add: SetupTmpFiles_def Let_def call_eq record_event_def ex)
qed

text \<open>
  C7. When the calls to the operating system succeed and the kind of each path stays what it is
  during the setup, \<^verbatim>\<open>SetupTmpFiles\<close> removes and recreates the temporary directory and then
  treats the resource, behavior and data folders in this order: for a configured path that does
  not exist it stats the path, logs the warning and creates the target directory, and goes on;
  at the first configured path that is a file it stats the path, creates nothing, and returns
  \<^verbatim>\<open>isDirNotADirError\<close> for that path, wrapped with the message of the folder, without
  touching the folders after it; with no file among the paths it returns no error. The closure
  does the same whatever the history: for a missing path it returns what \<^verbatim>\<open>os.MkdirAll\<close>
  returns, for a file it returns \<^verbatim>\<open>isDirNotADirError\<close>.
\<close>

theorem SetupTmpFiles_missing_or_file:
  "((\<forall>h x. outcome env h x = None) \<and> (\<forall>h q. statAnswer env h q = kind q) \<longrightarrow>
      SetupTmpFiles env config profile dot w =
        (let tmp = filepath_Join dot ''tmp'';
             start = [EvCall (RemoveAll tmp) None, EvCall (MkdirAll tmp) None];
             rp = folder_events (kind (ResourceFolder config)) (ResourceFolder config)
                    (filepath_Join tmp ''RP'') ''resource folder'';
             bp = folder_events (kind (BehaviorFolder config)) (BehaviorFolder config)
                    (filepath_Join tmp ''BP'') ''behavior folder'';
             data = folder_events (kind (DataPath config)) (DataPath config)
                    (filepath_Join tmp ''data'') ''data folder''
         in if is_file (kind (ResourceFolder config)) (ResourceFolder config)
            then (Some (WrapError (WrappedErrorf isDirNotADirError [ResourceFolder config])
                          (Text ''Failed to setup RP folder in the temporary directory.'')),
                  w\<lparr>trace := trace w @ start @ rp\<rparr>)
            else if is_file (kind (BehaviorFolder config)) (BehaviorFolder config)
            then (Some (WrapError (WrappedErrorf isDirNotADirError [BehaviorFolder config])
                          (Text ''Failed to setup BP folder in the temporary directory.'')),
                  w\<lparr>trace := trace w @ start @ rp @ bp\<rparr>)
            else if is_file (kind (DataPath config)) (DataPath config)
            then (Some (WrapError (WrappedErrorf isDirNotADirError [DataPath config])
                          (Text ''Failed to setup data folder in the temporary directory.'')),
                  w\<lparr>trace := trace w @ start @ rp @ bp @ data\<rparr>)
            else (None, w\<lparr>trace := trace w @ start @ rp @ bp @ data\<rparr>)))
   \<and> (path \<noteq> [] \<and> statAnswer env (trace w) path = StatNotExist \<longrightarrow>
      (let p = filepath_Join tmp short;
           made = outcome env (trace w @ [EvStat path StatNotExist, EvWarn descr path]) (MkdirAll p)
       in trace (snd (setup_tmp_directory env tmp path short descr w)) =
            trace w @ [EvStat path StatNotExist, EvWarn descr path, EvCall (MkdirAll p) made]
          \<and> fst (setup_tmp_directory env tmp path short descr w) =
            (case made of None \<Rightarrow> None | Some err \<Rightarrow> Some (WrapErrorf err osMkdirError [p]))))
   \<and> (path \<noteq> [] \<and> statAnswer env (trace w) path = StatFile \<longrightarrow>
      fst (setup_tmp_directory env tmp path short descr w) = Some (WrappedErrorf isDirNotADirError [path])
      \<and> trace (snd (setup_tmp_directory env tmp path short descr w)) = trace w @ [EvStat path StatFile])
   \<and> (path \<in> {ResourceFolder config, BehaviorFolder config, DataPath config} \<and> path \<noteq> []
        \<and> (\<forall>h. statAnswer env h path = StatFile) \<longrightarrow>
      fst (SetupTmpFiles env config profile dot w) \<noteq> None)
   \<and> ((\<forall>h x. outcome env h x = None) \<and> (\<forall>h q. statAnswer env h q \<noteq> StatFile) \<longrightarrow>
      fst (SetupTmpFiles env config profile dot w) = None)"
proof (intro conjI impI)
  assume "(\<forall>h x. outcome env h x = None) \<and> (\<forall>h q. statAnswer env h q = kind q)"
  then show "SetupTmpFiles env config profile dot w =
        (let tmp = filepath_Join dot ''tmp'';
             start = [EvCall (RemoveAll tmp) None, EvCall (MkdirAll tmp) None];
             rp = folder_events (kind (ResourceFolder config)) (ResourceFolder config)
                    (filepath_Join tmp ''RP'') ''resource folder'';
             bp = folder_events (kind (BehaviorFolder config)) (BehaviorFolder config)
                    (filepath_Join tmp ''BP'') ''behavior folder'';
             data = folder_events (kind (DataPath config)) (DataPath config)
                    (filepath_Join tmp ''data'') ''data folder''
         in if is_file (kind (ResourceFolder config)) (ResourceFolder config)
            then (Some (WrapError (WrappedErrorf isDirNotADirError [ResourceFolder config])
                          (Text ''Failed to setup RP folder in the temporary directory.'')),
                  w\<lparr>trace := trace w @ start @ rp\<rparr>)
            else if is_file (kind (BehaviorFolder config)) (BehaviorFolder config)
            then (Some (WrapError (WrappedErrorf isDirNotADirError [BehaviorFolder config])
                          (Text ''Failed to setup BP folder in the temporary directory.'')),
                  w\<lparr>trace := trace w @ start @ rp @ bp\<rparr>)
            else if is_file (kind (DataPath config)) (DataPath config)
            then (Some (WrapError (WrappedErrorf isDirNotADirError [DataPath config])
                          (Text ''Failed to setup data folder in the temporary directory.'')),
                  w\<lparr>trace := trace w @ start @ rp @ bp @ data\<rparr>)
            else (None, w\<lparr>trace := trace w @ start @ rp @ bp @ data\<rparr>))"
    using SetupTmpFiles_exact [of env kind config profile dot w] by blast
next
  assume "path \<noteq> [] \<and> statAnswer env (trace w) path = StatNotExist"
  then show "let p = filepath_Join tmp short;
           made = outcome env (trace w @ [EvStat path StatNotExist, EvWarn descr path]) (MkdirAll p)
       in trace (snd (setup_tmp_directory env tmp path short descr w)) =
            trace w @ [EvStat path StatNotExist, EvWarn descr path, EvCall (MkdirAll p) made]
          \<and> fst (setup_tmp_directory env tmp path short descr w) =
            (case made of None \<Rightarrow> None | Some err \<Rightarrow> Some (WrapErrorf err osMkdirError [p]))"
    by (simp add: setup_tmp_directory_def Let_def os_Stat_eq call_eq split: option.splits)
next
  assume a: "path \<noteq> [] \<and> statAnswer env (trace w) path = StatFile"
  then show "fst (setup_tmp_directory env tmp path short descr w) = Some (WrappedErrorf isDirNotADirError [path])"
    by (simp add: setup_tmp_directory_def Let_def os_Stat_eq)
  from a show "trace (snd (setup_tmp_directory env tmp path short descr w)) = trace w @ [EvStat path StatFile]"
    by (simp add: setup_tmp_directory_def Let_def os_Stat_eq)
next
  assume "path \<in> {ResourceFolder config, BehaviorFolder config, DataPath config} \<and> path \<noteq> []
        \<and> (\<forall>h. statAnswer env h path = StatFile)"
  then show "fst (SetupTmpFiles env config profile dot w) \<noteq> None"
    using SetupTmpFiles_file_fails by blast
next
  assume "(\<forall>h x. outcome env h x = None) \<and> (\<forall>h q. statAnswer env h q \<noteq> StatFile)"
  then show "fst (SetupTmpFiles env config profile dot w) = None"
    using SetupTmpFiles_ok by blast
qed

lemma ex_simps: "statAnswer missing_env h p = StatNotExist" "outcome missing_env h c = None"
  "statAnswer file_env h p = StatFile" "outcome file_env h c = None"
  by (simp_all add: missing_env_def file_env_def)

lemma mixed_env_simps:
  "outcome mixed_env h c = None"
  "statAnswer mixed_env h p =
     (if p = ''packs/RP'' then StatNotExist else if p = ''packs/BP'' then StatFile else StatDir)"
  by (simp_all add: mixed_env_def)

theorem SetupTmpFiles_missing_or_file_witness:
  "SetupTmpFiles mixed_env example_config
       \<lparr>Filters = [], ExportTarget = ''local''\<rparr> ''.regolith'' fresh_world
     = (Some (WrapError (WrappedErrorf isDirNotADirError [''packs/BP''])
                (Text ''Failed to setup BP folder in the temporary directory.'')),
        \<lparr>store = [],
         trace = [EvCall (RemoveAll ''.regolith/tmp'') None,
                  EvCall (MkdirAll ''.regolith/tmp'') None,
                  EvStat ''packs/RP'' StatNotExist,
                  EvWarn ''resource folder'' ''packs/RP'',
                  EvCall (MkdirAll ''.regolith/tmp/RP'') None,
                  EvStat ''packs/BP'' StatFile]\<rparr>)
   \<and> fst (setup_tmp_directory missing_env ''.regolith/tmp'' ''packs/RP'' ''RP'' ''resource folder'' fresh_world) = None
   \<and> trace (snd (setup_tmp_directory missing_env ''.regolith/tmp'' ''packs/RP'' ''RP'' ''resource folder'' fresh_world))
      = [EvStat ''packs/RP'' StatNotExist, EvWarn ''resource folder'' ''packs/RP'',
         EvCall (MkdirAll ''.regolith/tmp/RP'') None]
   \<and> fst (setup_tmp_directory file_env ''.regolith/tmp'' ''packs/BP'' ''BP'' ''behavior folder'' fresh_world)
      = Some (WrappedErrorf isDirNotADirError [''packs/BP''])
   \<and> fst (SetupTmpFiles file_env example_config
             \<lparr>Filters = [], ExportTarget = ''local''\<rparr> ''.regolith'' fresh_world) \<noteq> None
   \<and> fst (SetupTmpFiles missing_env example_config
             \<lparr>Filters = [], ExportTarget = ''local''\<rparr> ''.regolith'' fresh_world) = None"
proof -
  have m: "(\<forall>h x. outcome mixed_env h x = None)
      \<and> (\<forall>h q. statAnswer mixed_env h q =
            (if q = ''packs/RP'' then StatNotExist else if q = ''packs/BP'' then StatFile else StatDir))"
    by (simp add: mixed_env_simps)
  have e: "SetupTmpFiles mixed_env example_config
       \<lparr>Filters = [], ExportTarget = ''local''\<rparr> ''.regolith'' fresh_world
     = (Some (WrapError (WrappedErrorf isDirNotADirError [''packs/BP''])
                (Text ''Failed to setup BP folder in the temporary directory.'')),
        \<lparr>store = [],
         trace = [EvCall (RemoveAll ''.regolith/tmp'') None,
                  EvCall (MkdirAll ''.regolith/tmp'') None,
                  EvStat ''packs/RP'' StatNotExist,
                  EvWarn ''resource folder'' ''packs/RP'',
                  EvCall (MkdirAll ''.regolith/tmp/RP'') None,
                  EvStat ''packs/BP'' StatFile]\<rparr>)"
    unfolding SetupTmpFiles_missing_or_file [of mixed_env
        "\<lambda>q. if q = ''packs/RP'' then StatNotExist else if q = ''packs/BP'' then StatFile else StatDir"
        example_config "\<lparr>Filters = [], ExportTarget = ''local''\<rparr>" "''.regolith''" fresh_world,
        THEN conjunct1, THEN mp, OF m]
    by (simp add: example_config_def Join_simps folder_events_def is_file_def
        fresh_world_def Let_def)
  have a: "fst (setup_tmp_directory missing_env ''.regolith/tmp'' ''packs/RP'' ''RP'' ''resource folder'' fresh_world) = None
   \<and> trace (snd (setup_tmp_directory missing_env ''.regolith/tmp'' ''packs/RP'' ''RP'' ''resource folder'' fresh_world))
      = [EvStat ''packs/RP'' StatNotExist, EvWarn ''resource folder'' ''packs/RP'',
         EvCall (MkdirAll ''.regolith/tmp/RP'') None]"
    using SetupTmpFiles_missing_or_file [of missing_env _ _ _ _ fresh_world "''packs/RP''"
        "''.regolith/tmp''" "''RP''" "''resource folder''"]
    by (simp add: ex_simps fresh_world_def Join_simps Let_def)
  have b: "fst (setup_tmp_directory file_env ''.regolith/tmp'' ''packs/BP'' ''BP'' ''behavior folder'' fresh_world)
      = Some (WrappedErrorf isDirNotADirError [''packs/BP''])"
    using SetupTmpFiles_missing_or_file [of file_env _ _ _ _ fresh_world "''packs/BP''"
        "''.regolith/tmp''" "''BP''" "''behavior folder''"]
    by (simp add: ex_simps)
  have c: "fst (SetupTmpFiles file_env example_config
             \<lparr>Filters = [], ExportTarget = ''local''\<rparr> ''.regolith'' fresh_world) \<noteq> None"
    using SetupTmpFiles_missing_or_file [of file_env _ example_config _ _ _ "''packs/BP''"]
    by (simp add: ex_simps example_config_def)
  have d: "fst (SetupTmpFiles missing_env example_config
             \<lparr>Filters = [], ExportTarget = ''local''\<rparr> ''.regolith'' fresh_world) = None"
    using SetupTmpFiles_missing_or_file [of missing_env _ example_config]
    by (simp add: ex_simps)
  from e a b c d show ?thesis by blast
qed

section \<open>What a run of the filters does\<close>

lemma ran_append [simp]: "ran (h @ h') = ran h @ ran h'"
  by (induction h rule: ran.induct) simp_all

lemma ran_clean_runs [simp]: "ran (clean_runs fs) = fs"
  by (induction fs) (simp_all add: clean_runs_def)

lemma set_clean_runs: "e \<in> set (clean_runs fs) \<Longrightarrow> \<exists>f. e = EvRun f False None"
  by (auto simp: clean_runs_def)

lemma EvRun_in_clean_runs [simp]:
  "EvRun f i e \<in> set (clean_runs fs) \<longleftrightarrow> f \<in> set fs \<and> \<not> i \<and> e = None"
  by (auto simp: clean_runs_def)

lemma WatchProfileImpl_cases:
  assumes "GetProfile c = Inr p" "WatchProfileImpl env c w = (r, w')"
  shows "(r = (False, None) \<and> trace w' = trace w @ clean_runs (enabled (Filters p)) \<and> store w' = store w) \<or>
   (\<exists>pre f post. r = (True, None) \<and> enabled (Filters p) = pre @ f # post \<and>
      trace w' = trace w @ clean_runs pre @ [EvRun f True None] \<and> store w' = store w) \<or>
   (\<exists>pre f post i e cl. enabled (Filters p) = pre @ f # post \<and>
      trace w' = trace w @ clean_runs pre @ [EvRun f i (Some e), EvCall ClearStates cl] \<and>
      r = (False, Some (WrapErrorf (case cl of None \<Rightarrow> e | Some e1 \<Rightarrow> WrapError e1 clearCachedStatesError)
                 filterRunnerRunError [GetId f])) \<and>
      store w' = (if cl = None then [] else store w))"
  using assms run_filters_cases [of env c "Filters p" w r w']
  by (simp add: WatchProfileImpl_def)

text \<open>
  C9. \<^verbatim>\<open>WatchProfileImpl\<close> never reports an interruption together with an error.
\<close>

theorem WatchProfileImpl_interrupted_or_error:
  "WatchProfileImpl env c w = ((interrupted, err), w') \<Longrightarrow>
     (interrupted \<longrightarrow> err = None) \<and> (err \<noteq> None \<longrightarrow> \<not> interrupted)"
proof (cases "GetProfile c")
  case (Inl e)
  assume "WatchProfileImpl env c w = ((interrupted, err), w')"
  with Inl show ?thesis by (simp add: WatchProfileImpl_def)
next
  case (Inr p)
  assume "WatchProfileImpl env c w = ((interrupted, err), w')"
  from WatchProfileImpl_cases [OF Inr this] show ?thesis by auto
qed

lemma ex2_simps:
  "runAnswer failing_env h f = (if GetId f = ''B'' then (False, Some (External ''exit status 1'')) else (False, None))"
  "outcome failing_env h c = None"
  "runAnswer interrupting_env h f = (if GetId f = ''B'' then (True, None) else (False, None))"
  "outcome interrupting_env h c = None"
  "runAnswer missing_env h f = (False, None)"
  by (simp_all add: failing_env_def interrupting_env_def missing_env_def)

lemma GetProfile_three: "GetProfile three_filters =
  Inr \<lparr>Filters = [LocalFilter ''A'' False [], LocalFilter ''B'' False [], LocalFilter ''C'' False []],
          ExportTarget = ''local''\<rparr>"
  by (simp add: GetProfile_def three_filters_def)

lemma GetProfile_example: "GetProfile example_context =
  Inr \<lparr>Filters = [LocalFilter ''A'' True [], LocalFilter ''B'' False []], ExportTarget = ''local''\<rparr>"
  by (simp add: GetProfile_def example_context_def example_config_def)

lemma Watch_failing:
  "WatchProfileImpl failing_env three_filters fresh_world =
    ((False, Some (WrapErrorf (External ''exit status 1'') filterRunnerRunError [''B''])),
     \<lparr>store = [], trace = [EvRun (LocalFilter ''A'' False []) False None,
         EvRun (LocalFilter ''B'' False []) False (Some (External ''exit status 1'')),
         EvCall ClearStates None]\<rparr>)"
  by (simp add: WatchProfileImpl_def GetProfile_three Run_eq ClearCachedStates_eq ex2_simps
      record_event_def fresh_world_def)

lemma Watch_interrupting:
  "WatchProfileImpl interrupting_env three_filters fresh_world =
    ((True, None),
     \<lparr>store = [], trace = [EvRun (LocalFilter ''A'' False []) False None,
         EvRun (LocalFilter ''B'' False []) True None]\<rparr>)"
  by (simp add: WatchProfileImpl_def GetProfile_three Run_eq ClearCachedStates_eq ex2_simps
      record_event_def fresh_world_def)

theorem WatchProfileImpl_interrupted_or_error_witness:
  "fst (WatchProfileImpl interrupting_env three_filters fresh_world) = (True, None) \<and>
   fst (WatchProfileImpl failing_env three_filters fresh_world) =
     (False, Some (WrapErrorf (External ''exit status 1'') filterRunnerRunError [''B'']))"
  using WatchProfileImpl_interrupted_or_error [OF Watch_interrupting]
    WatchProfileImpl_interrupted_or_error [OF Watch_failing]
  by (simp add: Watch_failing Watch_interrupting)

text \<open>
  C6. The filters that \<^verbatim>\<open>WatchProfileImpl\<close> runs are, in order, a prefix of the enabled filters
  of the profile in their declared order, the whole of it when the run is neither interrupted
  nor failed; no disabled filter is ever run.
\<close>

theorem WatchProfileImpl_order:
  assumes "GetProfile c = Inr p" and "WatchProfileImpl env c w = (r, w')"
  shows "trace w' = trace w @ new_events w w'
    \<and> prefix (ran (new_events w w')) (filter (\<lambda>f. \<not> IsDisabled f) (Filters p))
    \<and> (r = (False, None) \<longrightarrow> ran (new_events w w') = filter (\<lambda>f. \<not> IsDisabled f) (Filters p))
    \<and> (\<forall>f i e. EvRun f i e \<in> set (new_events w w') \<longrightarrow> \<not> IsDisabled f)"
proof -
  have en: "\<And>g. g \<in> set (enabled (Filters p)) \<Longrightarrow> \<not> IsDisabled g"
    by (simp add: enabled_def)
  from WatchProfileImpl_cases [OF assms] consider
    (a) "r = (False, None)" "trace w' = trace w @ clean_runs (enabled (Filters p))"
    | (b) pre f post where "r = (True, None)" "enabled (Filters p) = pre @ f # post"
        "trace w' = trace w @ clean_runs pre @ [EvRun f True None]"
    | (c) pre f post i e cl where "enabled (Filters p) = pre @ f # post"
        "trace w' = trace w @ clean_runs pre @ [EvRun f i (Some e), EvCall ClearStates cl]"
        "r \<noteq> (False, None)"
    by fastforce
  then have "\<exists>fs post. trace w' = trace w @ new_events w w' \<and> ran (new_events w w') = fs
      \<and> enabled (Filters p) = fs @ post \<and> (r = (False, None) \<longrightarrow> post = [])
      \<and> (\<forall>f i e. EvRun f i e \<in> set (new_events w w') \<longrightarrow> f \<in> set fs)"
  proof cases
    case a
    have n: "new_events w w' = clean_runs (enabled (Filters p))" using a(2) by (simp add: new_events_append)
    show ?thesis unfolding n using a by simp
  next
    case b
    have n: "new_events w w' = clean_runs pre @ [EvRun f True None]" using b(3) by (simp add: new_events_append)
    have "enabled (Filters p) = (pre @ [f]) @ post" using b(2) by simp
    then show ?thesis unfolding n using b(1,3) by auto
  next
    case c
    have n: "new_events w w' = clean_runs pre @ [EvRun f i (Some e), EvCall ClearStates cl]"
      using c(2) by (simp add: new_events_append)
    have "enabled (Filters p) = (pre @ [f]) @ post" using c(1) by simp
    then show ?thesis unfolding n using c(2,3) by auto
  qed
  then obtain fs post where f: "trace w' = trace w @ new_events w w'" "ran (new_events w w') = fs"
      "enabled (Filters p) = fs @ post" "r = (False, None) \<longrightarrow> post = []"
      "\<forall>f i e. EvRun f i e \<in> set (new_events w w') \<longrightarrow> f \<in> set fs"
    by blast
  have sub: "set fs \<subseteq> set (enabled (Filters p))" using f(3) by simp
  have pre: "prefix (ran (new_events w w')) (enabled (Filters p))"
    using f(2,3) by (simp add: prefix_def)
  have full: "r = (False, None) \<longrightarrow> ran (new_events w w') = enabled (Filters p)"
    using f(2,3,4) by simp
  have dis: "\<forall>f i e. EvRun f i e \<in> set (new_events w w') \<longrightarrow> \<not> IsDisabled f"
    using f(5) sub en by blast
  from f(1) pre full dis show ?thesis unfolding enabled_def by blast
qed

lemma Watch_example:
  "WatchProfileImpl missing_env example_context fresh_world =
     ((False, None), \<lparr>store = [], trace = [EvRun (LocalFilter ''B'' False []) False None]\<rparr>)"
  by (simp add: WatchProfileImpl_def GetProfile_example Run_eq ex2_simps record_event_def
      fresh_world_def)

theorem WatchProfileImpl_order_witness:
  "GetProfile example_context =
     Inr \<lparr>Filters = [LocalFilter ''A'' True [], LocalFilter ''B'' False []], ExportTarget = ''local''\<rparr>
   \<and> WatchProfileImpl missing_env example_context fresh_world =
     ((False, None), \<lparr>store = [], trace = [EvRun (LocalFilter ''B'' False []) False None]\<rparr>)
   \<and> ran (new_events fresh_world
        \<lparr>store = [], trace = [EvRun (LocalFilter ''B'' False []) False None]\<rparr>)
       = filter (\<lambda>f. \<not> IsDisabled f)
           (Filters \<lparr>Filters = [LocalFilter ''A'' True [], LocalFilter ''B'' False []],
                     ExportTarget = ''local''\<rparr>)
   \<and> filter (\<lambda>f. \<not> IsDisabled f) [LocalFilter ''A'' True [], LocalFilter ''B'' False []]
       = [LocalFilter ''B'' False []]"
proof -
  have "ran (new_events fresh_world
        \<lparr>store = [], trace = [EvRun (LocalFilter ''B'' False []) False None]\<rparr>)
       = filter (\<lambda>f. \<not> IsDisabled f)
           (Filters \<lparr>Filters = [LocalFilter ''A'' True [], LocalFilter ''B'' False []],
                     ExportTarget = ''local''\<rparr>)"
    using WatchProfileImpl_order [OF GetProfile_example Watch_example] by blast
  moreover have "filter (\<lambda>f. \<not> IsDisabled f) [LocalFilter ''A'' True [], LocalFilter ''B'' False []]
       = [LocalFilter ''B'' False []]" by simp
  ultimately show ?thesis using GetProfile_example Watch_example by blast
qed

lemma env2_simps:
  "outcome clear_failing_env h c = (case c of ClearStates \<Rightarrow> Some (External ''cache locked'') | _ \<Rightarrow> None)"
  "runAnswer clear_failing_env h f =
     (if GetId f = ''B'' then (False, Some (External ''exit status 1'')) else (False, None))"
  "outcome unclearable_env h c = (case c of ClearStates \<Rightarrow> Some (External ''cache locked'') | _ \<Rightarrow> None)"
  "statAnswer unclearable_env h p = StatDir"
  "pollAnswer unclearable_env h a = False"
  "runAnswer unclearable_env h f = (False, None)"
  "outcome locked_cache_env h c = (case c of ClearStates \<Rightarrow> Some (External ''cache locked'')
                                     | SaveState p \<Rightarrow> Some (External ''cache locked'') | _ \<Rightarrow> None)"
  "statAnswer locked_cache_env h p = StatDir"
  "pollAnswer locked_cache_env h a = (\<not> list_ex is_poll h)"
  "runAnswer locked_cache_env h f = (False, None)"
  "outcome data_change_env h c = None"
  "statAnswer data_change_env h p = StatDir"
  "pollAnswer data_change_env h a = (list_ex is_export h \<and> ''data'' \<notin> set a)"
  "runAnswer data_change_env h f = (False, None)"
  by (simp_all add: clear_failing_env_def unclearable_env_def locked_cache_env_def
      data_change_env_def)

text \<open>
  C5, as stated, fails: when \<^verbatim>\<open>ClearCachedStates\<close> itself fails after the error of the filter B,
  the error returned wraps the error of the clear, the error of the filter is lost, and the
  persisted store still holds what it held.
\<close>

theorem WatchProfileImpl_failed_clear_hides_error:
  "WatchProfileImpl clear_failing_env three_filters cached_world =
     ((False, Some (WrapErrorf (WrapError (External ''cache locked'') clearCachedStatesError)
                      filterRunnerRunError [''B''])),
      \<lparr>store = [''.regolith/tmp/RP''],
       trace = [EvRun (LocalFilter ''A'' False []) False None,
                EvRun (LocalFilter ''B'' False []) False (Some (External ''exit status 1'')),
                EvCall ClearStates (Some (External ''cache locked''))]\<rparr>)"
  by (simp add: WatchProfileImpl_def GetProfile_three Run_eq ClearCachedStates_eq env2_simps
      record_event_def cached_world_def)

text \<open>
  C5, amended. When a filter's \<^verbatim>\<open>Run\<close> returns an error inside \<^verbatim>\<open>WatchProfileImpl\<close>: the
  enabled filters before it ran once each without error or interruption, it ran once, no later
  filter runs, \<^verbatim>\<open>ClearCachedStates\<close> is called at once and nothing follows it, and the result
  is not interrupted and carries an error wrapped with the identifier of the filter. After a
  clear that succeeds the persisted store is empty and the wrapped error is the error of the
  filter; after a clear that fails the wrapped error is the error of the clear, itself wrapped
  with \<^verbatim>\<open>clearCachedStatesError\<close>, and the store is as it was before the filters ran.
\<close>

theorem WatchProfileImpl_first_error_aborts:
  assumes "GetProfile c = Inr p" and "WatchProfileImpl env c w = (r, w')"
    and "EvRun f i (Some e) \<in> set (new_events w w')"
  shows "\<exists>pre post cl.
      filter (\<lambda>f. \<not> IsDisabled f) (Filters p) = pre @ f # post
    \<and> trace w' = trace w @ map (\<lambda>g. EvRun g False None) pre
                    @ [EvRun f i (Some e), EvCall ClearStates cl]
    \<and> r = (False, Some (WrapErrorf
              (case cl of None \<Rightarrow> e | Some e1 \<Rightarrow> WrapError e1 clearCachedStatesError)
              filterRunnerRunError [GetId f]))
    \<and> store w' = (if cl = None then [] else store w)"
proof -
  from WatchProfileImpl_cases [OF assms(1,2)] consider
    (a) "trace w' = trace w @ clean_runs (enabled (Filters p))"
    | (b) pre g where "trace w' = trace w @ clean_runs pre @ [EvRun g True None]"
    | (c) pre g post j e' cl where "enabled (Filters p) = pre @ g # post"
        "trace w' = trace w @ clean_runs pre @ [EvRun g j (Some e'), EvCall ClearStates cl]"
        "r = (False, Some (WrapErrorf (case cl of None \<Rightarrow> e' | Some e1 \<Rightarrow> WrapError e1 clearCachedStatesError)
                 filterRunnerRunError [GetId g]))"
        "store w' = (if cl = None then [] else store w)"
    by blast
  then show ?thesis
  proof cases
    case a
    then have "new_events w w' = clean_runs (enabled (Filters p))" by (simp add: new_events_append)
    with assms(3) show ?thesis by (auto dest: set_clean_runs)
  next
    case b
    then have "new_events w w' = clean_runs pre @ [EvRun g True None]" by (simp add: new_events_append)
    with assms(3) show ?thesis by (auto dest: set_clean_runs)
  next
    case c
    then have "new_events w w' = clean_runs pre @ [EvRun g j (Some e'), EvCall ClearStates cl]"
      by (simp add: new_events_append)
    with assms(3) have "EvRun f i (Some e) = EvRun g j (Some e')" by (auto dest: set_clean_runs)
    then have "f = g" "i = j" "e = e'" by simp_all
    with c show ?thesis by (auto simp: enabled_def clean_runs_def)
  qed
qed

theorem WatchProfileImpl_first_error_aborts_witness:
  "WatchProfileImpl failing_env three_filters cached_world =
    ((False, Some (WrapErrorf (External ''exit status 1'') filterRunnerRunError [''B''])),
     \<lparr>store = [], trace = [EvRun (LocalFilter ''A'' False []) False None,
         EvRun (LocalFilter ''B'' False []) False (Some (External ''exit status 1'')),
         EvCall ClearStates None]\<rparr>)
   \<and> (\<exists>pre post cl.
        filter (\<lambda>f. \<not> IsDisabled f)
          (Filters \<lparr>Filters = [LocalFilter ''A'' False [], LocalFilter ''B'' False [],
                               LocalFilter ''C'' False []], ExportTarget = ''local''\<rparr>)
          = pre @ LocalFilter ''B'' False [] # post
        \<and> trace \<lparr>store = [], trace = [EvRun (LocalFilter ''A'' False []) False None,
         EvRun (LocalFilter ''B'' False []) False (Some (External ''exit status 1'')),
         EvCall ClearStates None]\<rparr>
          = trace cached_world @ map (\<lambda>g. EvRun g False None) pre
            @ [EvRun (LocalFilter ''B'' False []) False (Some (External ''exit status 1'')),
               EvCall ClearStates cl]
        \<and> (False, Some (WrapErrorf (External ''exit status 1'') filterRunnerRunError [''B'']))
          = (False, Some (WrapErrorf
              (case cl of None \<Rightarrow> External ''exit status 1''
               | Some e1 \<Rightarrow> WrapError e1 clearCachedStatesError)
              filterRunnerRunError [GetId (LocalFilter ''B'' False [])]))
        \<and> store \<lparr>store = [], trace = [EvRun (LocalFilter ''A'' False []) False None,
         EvRun (LocalFilter ''B'' False []) False (Some (External ''exit status 1'')),
         EvCall ClearStates None]\<rparr> = (if cl = None then [] else store cached_world))"
proof (rule conjI)
  show run: "WatchProfileImpl failing_env three_filters cached_world =
    ((False, Some (WrapErrorf (External ''exit status 1'') filterRunnerRunError [''B''])),
     \<lparr>store = [], trace = [EvRun (LocalFilter ''A'' False []) False None,
         EvRun (LocalFilter ''B'' False []) False (Some (External ''exit status 1'')),
         EvCall ClearStates None]\<rparr>)"
    by (simp add: WatchProfileImpl_def GetProfile_three Run_eq ClearCachedStates_eq ex2_simps
        record_event_def cached_world_def)
  have m: "EvRun (LocalFilter ''B'' False []) False (Some (External ''exit status 1''))
      \<in> set (new_events cached_world \<lparr>store = [], trace = [EvRun (LocalFilter ''A'' False []) False None,
         EvRun (LocalFilter ''B'' False []) False (Some (External ''exit status 1'')),
         EvCall ClearStates None]\<rparr>)"
    by (simp add: new_events_def cached_world_def)
  show "\<exists>pre post cl.
        filter (\<lambda>f. \<not> IsDisabled f)
          (Filters \<lparr>Filters = [LocalFilter ''A'' False [], LocalFilter ''B'' False [],
                               LocalFilter ''C'' False []], ExportTarget = ''local''\<rparr>)
          = pre @ LocalFilter ''B'' False [] # post
        \<and> trace \<lparr>store = [], trace = [EvRun (LocalFilter ''A'' False []) False None,
         EvRun (LocalFilter ''B'' False []) False (Some (External ''exit status 1'')),
         EvCall ClearStates None]\<rparr>
          = trace cached_world @ map (\<lambda>g. EvRun g False None) pre
            @ [EvRun (LocalFilter ''B'' False []) False (Some (External ''exit status 1'')),
               EvCall ClearStates cl]
        \<and> (False, Some (WrapErrorf (External ''exit status 1'') filterRunnerRunError [''B'']))
          = (False, Some (WrapErrorf
              (case cl of None \<Rightarrow> External ''exit status 1''
               | Some e1 \<Rightarrow> WrapError e1 clearCachedStatesError)
              filterRunnerRunError [GetId (LocalFilter ''B'' False [])]))
        \<and> store \<lparr>store = [], trace = [EvRun (LocalFilter ''A'' False []) False None,
         EvRun (LocalFilter ''B'' False []) False (Some (External ''exit status 1'')),
         EvCall ClearStates None]\<rparr> = (if cl = None then [] else store cached_world)"
    by (rule WatchProfileImpl_first_error_aborts [OF GetProfile_three run m])
qed

section \<open>Passes of the run loops\<close>

lemma quiet_simps [simp]:
  "quiet []" "quiet (a @ b) \<longleftrightarrow> quiet a \<and> quiet b"
  "quiet (e # evs) \<longleftrightarrow> \<not> is_interruption e \<and> \<not> is_save e \<and> quiet evs"
  by (auto simp: quiet_def)

lemma quiet_copy: "list_all copy_event evs \<Longrightarrow> quiet evs"
proof (induction evs)
  case Nil then show ?case by simp
next
  case (Cons e evs)
  then have "copy_event e" by simp
  then have "\<not> is_interruption e \<and> \<not> is_save e" by (cases e rule: copy_event.cases) simp_all
  with Cons show ?case by simp
qed

lemma quiet_recycle: "list_all recycle_event evs \<Longrightarrow> quiet evs"
proof (induction evs)
  case Nil then show ?case by simp
next
  case (Cons e evs)
  then have "recycle_event e" by simp
  then have "\<not> is_interruption e \<and> \<not> is_save e" by (cases e rule: recycle_event.cases) simp_all
  with Cons show ?case by simp
qed

lemma quiet_clean_runs [simp]: "quiet (clean_runs fs)"
  by (induction fs) (simp_all add: clean_runs_def)

text \<open>
  \<^verbatim>\<open>saveTmp\<close> always makes its three saves; it returns no error when the three succeed, and
  otherwise clears the cached states and returns an error.
\<close>

lemma saveTmp_cases:
  assumes "saveTmp env c w = (r, w')"
  shows "\<exists>e1 e2 e3.
     (r = None \<and> e1 = None \<and> e2 = None \<and> e3 = None
        \<and> trace w' = trace w @ save_events c [e1, e2, e3]
        \<and> set (tmp_roots c) \<subseteq> set (store w'))
   \<or> (\<exists>err cl. firstErr [e1, e2, e3] = Some err
        \<and> trace w' = trace w @ save_events c [e1, e2, e3] @ [EvCall ClearStates cl]
        \<and> r = Some (WrapError (case cl of None \<Rightarrow> err
                                 | Some ec \<Rightarrow> WrapError ec clearCachedStatesError)
                       (Text ''Failed to save file path states in cache.''))
        \<and> (cl = None \<longrightarrow> store w' = []))"
proof -
  let ?rp = "filepath_Join (DotRegolithPath c) ''tmp/RP''"
  let ?bp = "filepath_Join (DotRegolithPath c) ''tmp/BP''"
  let ?dp = "filepath_Join (DotRegolithPath c) ''tmp/data''"
  obtain e1 w1 where s1: "SaveStateInDefaultCache env ?rp w = (e1, w1)" by (cases "SaveStateInDefaultCache env ?rp w")
  obtain e2 w2 where s2: "SaveStateInDefaultCache env ?bp w1 = (e2, w2)" by (cases "SaveStateInDefaultCache env ?bp w1")
  obtain e3 w3 where s3: "SaveStateInDefaultCache env ?dp w2 = (e3, w3)" by (cases "SaveStateInDefaultCache env ?dp w2")
  have t1: "trace w1 = trace w @ [EvCall (SaveState ?rp) e1]" and st1: "e1 = None \<Longrightarrow> ?rp \<in> set (store w1)"
    using s1 by (auto simp: SaveStateInDefaultCache_eq)
  have t2: "trace w2 = trace w1 @ [EvCall (SaveState ?bp) e2]"
    and st2: "e2 = None \<Longrightarrow> ?bp \<in> set (store w2)" "set (store w1) \<subseteq> set (store w2)"
    using s2 by (auto simp: SaveStateInDefaultCache_eq)
  have t3: "trace w3 = trace w2 @ [EvCall (SaveState ?dp) e3]"
    and st3: "e3 = None \<Longrightarrow> ?dp \<in> set (store w3)" "set (store w2) \<subseteq> set (store w3)"
    using s3 by (auto simp: SaveStateInDefaultCache_eq)
  have t: "trace w3 = trace w @ save_events c [e1, e2, e3]"
    using t1 t2 t3 by (simp add: save_events_def tmp_roots_def)
  show ?thesis
  proof (cases "firstErr [e1, e2, e3]")
    case None
    then have n: "e1 = None" "e2 = None" "e3 = None"
      by (cases e1; cases e2; cases e3; simp)+
    from assms s1 s2 s3 None have "r = None" "w' = w3" by (simp_all add: saveTmp_def)
    moreover have "set (tmp_roots c) \<subseteq> set (store w3)"
      using st1 st2 st3 n by (auto simp: tmp_roots_def)
    ultimately show ?thesis using t n by blast
  next
    case (Some err)
    let ?cl = "outcome env (trace w3) ClearStates"
    from assms s1 s2 s3 Some have
      "r = Some (WrapError (case ?cl of None \<Rightarrow> err | Some ec \<Rightarrow> WrapError ec clearCachedStatesError)
                       (Text ''Failed to save file path states in cache.''))"
      and "trace w' = trace w3 @ [EvCall ClearStates ?cl]" and "?cl = None \<longrightarrow> store w' = []"
      by (auto simp: saveTmp_def ClearCachedStates_eq split: option.splits)
    with t Some show ?thesis by auto
  qed
qed

lemma save_and_restart_cases:
  assumes "save_and_restart env c w = p"
  shows "\<exists>e1 e2 e3.
     (p = Restart (pass_world p) \<and> e1 = None \<and> e2 = None \<and> e3 = None
        \<and> trace (pass_world p) = trace w @ save_events c [e1, e2, e3]
        \<and> set (tmp_roots c) \<subseteq> set (store (pass_world p)))
   \<or> (\<exists>err cl. firstErr [e1, e2, e3] = Some err
        \<and> trace (pass_world p) = trace w @ save_events c [e1, e2, e3] @ [EvCall ClearStates cl]
        \<and> p = Finished (Some (PassError (WrapError (case cl of None \<Rightarrow> err
                                 | Some ec \<Rightarrow> WrapError ec clearCachedStatesError)
                       (Text ''Failed to save file path states in cache.'')))) (pass_world p)
        \<and> (cl = None \<longrightarrow> store (pass_world p) = []))"
proof -
  obtain r w' where s: "saveTmp env c w = (r, w')" by (cases "saveTmp env c w")
  from saveTmp_cases [OF s] obtain e1 e2 e3 where
    d: "(r = None \<and> e1 = None \<and> e2 = None \<and> e3 = None
        \<and> trace w' = trace w @ save_events c [e1, e2, e3]
        \<and> set (tmp_roots c) \<subseteq> set (store w'))
   \<or> (\<exists>err cl. firstErr [e1, e2, e3] = Some err
        \<and> trace w' = trace w @ save_events c [e1, e2, e3] @ [EvCall ClearStates cl]
        \<and> r = Some (WrapError (case cl of None \<Rightarrow> err
                                 | Some ec \<Rightarrow> WrapError ec clearCachedStatesError)
                       (Text ''Failed to save file path states in cache.''))
        \<and> (cl = None \<longrightarrow> store w' = []))" by blast
  have "(p = Restart (pass_world p) \<and> e1 = None \<and> e2 = None \<and> e3 = None
        \<and> trace (pass_world p) = trace w @ save_events c [e1, e2, e3]
        \<and> set (tmp_roots c) \<subseteq> set (store (pass_world p)))
   \<or> (\<exists>err cl. firstErr [e1, e2, e3] = Some err
        \<and> trace (pass_world p) = trace w @ save_events c [e1, e2, e3] @ [EvCall ClearStates cl]
        \<and> p = Finished (Some (PassError (WrapError (case cl of None \<Rightarrow> err
                                 | Some ec \<Rightarrow> WrapError ec clearCachedStatesError)
                       (Text ''Failed to save file path states in cache.'')))) (pass_world p)
        \<and> (cl = None \<longrightarrow> store (pass_world p) = []))"
  proof (cases r)
    case None
    then have "p = Restart w'" using assms s by (simp add: save_and_restart_def)
    with d None show ?thesis by auto
  next
    case (Some e)
    then have "p = Finished (Some (PassError e)) w'" using assms s by (simp add: save_and_restart_def)
    with d Some show ?thesis by auto
  qed
  then show ?thesis by blast
qed

lemma WatchProfileImpl_GetProfile_error:
  "GetProfile c = Inl e \<Longrightarrow>
   WatchProfileImpl env c w = ((False, Some (WrapErrorf e runContextGetProfileError [])), w)"
  by (simp add: WatchProfileImpl_def)

text \<open>
  A pass of either loop is quiet up to the first interruption it observes, where it ends
  (directly in full mode, through \<^verbatim>\<open>saveTmp\<close> in recycled mode); a pass that returns has observed
  none.
\<close>

lemma RunProfile_pass_shape:
  assumes "RunProfile_pass env c w = p"
  shows "(\<exists>evs e. quiet evs \<and> is_interruption e \<and> trace (pass_world p) = trace w @ evs @ [e]
            \<and> store (pass_world p) = store w \<and> p = Restart (pass_world p))
       \<or> (\<exists>r evs. p = Finished r (pass_world p) \<and> trace (pass_world p) = trace w @ evs \<and> quiet evs)"
proof (cases "GetProfile c")
  case (Inl e)
  with assms have "p = Finished (Some (WrapErrorf e runContextGetProfileError [])) w"
    by (simp add: RunProfile_pass_def)
  then have "p = Finished (Some (WrapErrorf e runContextGetProfileError [])) (pass_world p)
      \<and> trace (pass_world p) = trace w @ [] \<and> quiet []" by simp
  then show ?thesis by blast
next
  case (Inr profile)
  obtain r1 w1 where s1: "SetupTmpFiles env (Config c) profile (DotRegolithPath c) w = (r1, w1)"
    by (cases "SetupTmpFiles env (Config c) profile (DotRegolithPath c) w")
  from SetupTmpFiles_events [OF s1] obtain x evs1 where
    t1: "trace w1 = trace w @ EvCall (RemoveAll (filepath_Join (DotRegolithPath c) ''tmp'')) x # evs1"
    and q1: "list_all copy_event evs1" and st1: "store w1 = store w" by blast
  let ?E1 = "EvCall (RemoveAll (filepath_Join (DotRegolithPath c) ''tmp'')) x # evs1"
  have qE1: "quiet ?E1" using quiet_copy [OF q1] by simp
  show ?thesis
  proof (cases r1)
    case (Some e)
    with assms Inr s1 have "p = Finished (Some (WrapErrorf e setupTmpFilesError [DotRegolithPath c])) w1"
      by (simp add: RunProfile_pass_def)
    then have "p = Finished (Some (WrapErrorf e setupTmpFilesError [DotRegolithPath c])) (pass_world p)
      \<and> trace (pass_world p) = trace w @ ?E1 \<and> quiet ?E1" using t1 qE1 by simp
    then show ?thesis by blast
  next
    case r1: None
    let ?b1 = "pollAnswer env (trace w1) []"
    define w2 where "w2 = record_event (EvIsInterrupted [] ?b1) w1"
    have i2: "IsInterrupted env [] w1 = (?b1, w2)" by (simp add: IsInterrupted_eq w2_def)
    have st2: "store w2 = store w" using st1 by (simp add: w2_def)
    show ?thesis
    proof (cases ?b1)
      case True
      with assms Inr s1 r1 i2 have "p = Restart w2"
        by (simp add: RunProfile_pass_def)
      then have "quiet ?E1 \<and> is_interruption (EvIsInterrupted [] True)
          \<and> trace (pass_world p) = trace w @ ?E1 @ [EvIsInterrupted [] True]
          \<and> store (pass_world p) = store w \<and> p = Restart (pass_world p)"
        using t1 qE1 st2 True by (simp add: w2_def)
      then show ?thesis by blast
    next
      case b1: False
      have t2: "trace w2 = trace w @ ?E1 @ [EvIsInterrupted [] False]" using t1 b1 by (simp add: w2_def)
      have qE2: "quiet (?E1 @ [EvIsInterrupted [] False])" using qE1 by simp
      obtain r3 w3 where s3: "WatchProfileImpl env c w2 = (r3, w3)"
        by (cases "WatchProfileImpl env c w2")
      from WatchProfileImpl_cases [OF Inr s3] consider
        (clean) "r3 = (False, None)" "trace w3 = trace w2 @ clean_runs (enabled (Filters profile))"
          "store w3 = store w2"
        | (intr) pre f where "r3 = (True, None)"
          "trace w3 = trace w2 @ clean_runs pre @ [EvRun f True None]" "store w3 = store w2"
        | (fail) pre f i e cl err where
          "trace w3 = trace w2 @ clean_runs pre @ [EvRun f i (Some e), EvCall ClearStates cl]"
          "r3 = (False, Some err)"
        by blast
      then show ?thesis
      proof cases
        case fail
        with assms Inr s1 r1 b1 i2 s3 have "p = Finished (Some (PassError err)) w3"
          by (simp add: RunProfile_pass_def)
        then have "p = Finished (Some (PassError err)) (pass_world p)
          \<and> trace (pass_world p) = trace w @ (?E1 @ [EvIsInterrupted [] False] @ clean_runs pre
               @ [EvRun f i (Some e), EvCall ClearStates cl])
          \<and> quiet (?E1 @ [EvIsInterrupted [] False] @ clean_runs pre
               @ [EvRun f i (Some e), EvCall ClearStates cl])"
          using fail(1) t2 qE1 by simp
        then show ?thesis by blast
      next
        case intr
        with assms Inr s1 r1 b1 i2 s3 have "p = Restart w3"
          by (simp add: RunProfile_pass_def)
        then have "quiet (?E1 @ [EvIsInterrupted [] False] @ clean_runs pre)
          \<and> is_interruption (EvRun f True None)
          \<and> trace (pass_world p) = trace w @ (?E1 @ [EvIsInterrupted [] False] @ clean_runs pre)
                @ [EvRun f True None]
          \<and> store (pass_world p) = store w \<and> p = Restart (pass_world p)"
          using intr t2 qE1 st2 by simp
        then show ?thesis by blast
      next
        case clean
        let ?ex = "ExportProject profile (Name (Config c)) (DataPath (Config c)) (DotRegolithPath c)"
        let ?x4 = "outcome env (trace w3) ?ex"
        define w4 where "w4 = record_event (EvCall ?ex ?x4) w3"
        have c4: "call env ?ex w3 = (?x4, w4)" by (simp add: call_eq w4_def)
        let ?E3 = "?E1 @ [EvIsInterrupted [] False] @ clean_runs (enabled (Filters profile))"
        have t3: "trace w3 = trace w @ ?E3" using clean(2) t2 by simp
        have qE3: "quiet ?E3" using qE1 by simp
        show ?thesis
        proof (cases ?x4)
          case (Some e)
          with assms Inr s1 r1 b1 i2 s3 clean(1) c4 have "p = Finished (Some (WrapError e exportProjectError)) w4"
            by (simp add: RunProfile_pass_def)
          then have "p = Finished (Some (WrapError e exportProjectError)) (pass_world p)
            \<and> trace (pass_world p) = trace w @ (?E3 @ [EvCall ?ex ?x4])
            \<and> quiet (?E3 @ [EvCall ?ex ?x4])"
            using t3 qE1 by (simp add: w4_def)
          then show ?thesis by blast
        next
          case x4: None
          have t4: "trace w4 = trace w @ ?E3 @ [EvCall ?ex None]" using t3 x4 by (simp add: w4_def)
          have st4: "store w4 = store w" using clean(3) st2 by (simp add: w4_def)
          let ?b5 = "pollAnswer env (trace w4) [''data'']"
          define w5 where "w5 = record_event (EvIsInterrupted [''data''] ?b5) w4"
          have i5: "IsInterrupted env [''data''] w4 = (?b5, w5)" by (simp add: IsInterrupted_eq w5_def)
          show ?thesis
          proof (cases ?b5)
            case True
            with assms Inr s1 r1 b1 i2 s3 clean(1) x4 c4 i5 have "p = Restart w5"
              by (simp add: RunProfile_pass_def)
            then have "quiet (?E3 @ [EvCall ?ex None]) \<and> is_interruption (EvIsInterrupted [''data''] True)
              \<and> trace (pass_world p) = trace w @ (?E3 @ [EvCall ?ex None]) @ [EvIsInterrupted [''data''] True]
              \<and> store (pass_world p) = store w \<and> p = Restart (pass_world p)"
              using t4 qE1 st4 True by (simp add: w5_def)
            then show ?thesis by blast
          next
            case False
            with assms Inr s1 r1 b1 i2 s3 clean(1) x4 c4 i5 have "p = Finished None w5"
              by (simp add: RunProfile_pass_def)
            then have "p = Finished None (pass_world p)
              \<and> trace (pass_world p) = trace w @ (?E3 @ [EvCall ?ex None, EvIsInterrupted [''data''] False])
              \<and> quiet (?E3 @ [EvCall ?ex None, EvIsInterrupted [''data''] False])"
              using t4 qE1 False by (simp add: w5_def)
            then show ?thesis by blast
          qed
        qed
      qed
    qed
  qed
qed

lemma RecycledRunProfile_pass_shape:
  assumes "RecycledRunProfile_pass env c w = p"
  shows "(\<exists>evs e w0. quiet evs \<and> is_interruption e \<and> trace w0 = trace w @ evs @ [e]
            \<and> store w0 = store w \<and> p = save_and_restart env c w0)
       \<or> (\<exists>r evs. p = Finished r (pass_world p) \<and> trace (pass_world p) = trace w @ evs \<and> quiet evs)"
proof (cases "GetProfile c")
  case (Inl e)
  with assms have "p = Finished (Some (WrapErrorf e runContextGetProfileError [])) w"
    by (simp add: RecycledRunProfile_pass_def)
  then have "p = Finished (Some (WrapErrorf e runContextGetProfileError [])) (pass_world p)
      \<and> trace (pass_world p) = trace w @ [] \<and> quiet []" by simp
  then show ?thesis by blast
next
  case (Inr profile)
  obtain r1 w1 where s1: "RecycledSetupTmpFiles env (Config c) profile (DotRegolithPath c) w = (r1, w1)"
    by (cases "RecycledSetupTmpFiles env (Config c) profile (DotRegolithPath c) w")
  from RecycledSetupTmpFiles_events [OF s1] obtain x evs1 where
    t1: "trace w1 = trace w @ EvCall (MkdirAll (filepath_Join (DotRegolithPath c) ''tmp'')) x # evs1"
    and q1: "list_all recycle_event evs1" and st1: "store w1 = store w" by blast
  let ?E1 = "EvCall (MkdirAll (filepath_Join (DotRegolithPath c) ''tmp'')) x # evs1"
  have qE1: "quiet ?E1" using quiet_recycle [OF q1] by simp
  show ?thesis
  proof (cases r1)
    case (Some e)
    let ?cl = "outcome env (trace w1) ClearStates"
    obtain r2 w2 where c2: "ClearCachedStates env w1 = (r2, w2)" by (cases "ClearCachedStates env w1")
    then have t2: "trace w2 = trace w1 @ [EvCall ClearStates ?cl]"
      by (auto simp: ClearCachedStates_eq)
    from assms Inr s1 Some c2 obtain err where "p = Finished (Some err) w2"
      by (auto simp: RecycledRunProfile_pass_def split: option.splits)
    then have "p = Finished (Some err) (pass_world p)
      \<and> trace (pass_world p) = trace w @ (?E1 @ [EvCall ClearStates ?cl])
      \<and> quiet (?E1 @ [EvCall ClearStates ?cl])" using t1 t2 qE1 by simp
    then show ?thesis by blast
  next
    case r1: None
    let ?b1 = "pollAnswer env (trace w1) []"
    define w2 where "w2 = record_event (EvIsInterrupted [] ?b1) w1"
    have i2: "IsInterrupted env [] w1 = (?b1, w2)" by (simp add: IsInterrupted_eq w2_def)
    have st2: "store w2 = store w" using st1 by (simp add: w2_def)
    show ?thesis
    proof (cases ?b1)
      case True
      with assms Inr s1 r1 i2 have "p = save_and_restart env c w2"
        by (simp add: RecycledRunProfile_pass_def)
      then have "quiet ?E1 \<and> is_interruption (EvIsInterrupted [] True)
          \<and> trace w2 = trace w @ ?E1 @ [EvIsInterrupted [] True]
          \<and> store w2 = store w \<and> p = save_and_restart env c w2"
        using t1 qE1 st2 True by (simp add: w2_def)
      then show ?thesis by blast
    next
      case b1: False
      have t2: "trace w2 = trace w @ ?E1 @ [EvIsInterrupted [] False]" using t1 b1 by (simp add: w2_def)
      have qE2: "quiet (?E1 @ [EvIsInterrupted [] False])" using qE1 by simp
      obtain r3 w3 where s3: "WatchProfileImpl env c w2 = (r3, w3)"
        by (cases "WatchProfileImpl env c w2")
      from WatchProfileImpl_cases [OF Inr s3] consider
        (clean) "r3 = (False, None)" "trace w3 = trace w2 @ clean_runs (enabled (Filters profile))"
          "store w3 = store w2"
        | (intr) pre f where "r3 = (True, None)"
          "trace w3 = trace w2 @ clean_runs pre @ [EvRun f True None]" "store w3 = store w2"
        | (fail) pre f i e cl err where
          "trace w3 = trace w2 @ clean_runs pre @ [EvRun f i (Some e), EvCall ClearStates cl]"
          "r3 = (False, Some err)"
        by blast
      then show ?thesis
      proof cases
        case fail
        with assms Inr s1 r1 b1 i2 s3 have "p = Finished (Some (PassError err)) w3"
          by (simp add: RecycledRunProfile_pass_def)
        then have "p = Finished (Some (PassError err)) (pass_world p)
          \<and> trace (pass_world p) = trace w @ (?E1 @ [EvIsInterrupted [] False] @ clean_runs pre
               @ [EvRun f i (Some e), EvCall ClearStates cl])
          \<and> quiet (?E1 @ [EvIsInterrupted [] False] @ clean_runs pre
               @ [EvRun f i (Some e), EvCall ClearStates cl])"
          using fail(1) t2 qE1 by simp
        then show ?thesis by blast
      next
        case intr
        with assms Inr s1 r1 b1 i2 s3 have "p = save_and_restart env c w3"
          by (simp add: RecycledRunProfile_pass_def)
        then have "quiet (?E1 @ [EvIsInterrupted [] False] @ clean_runs pre)
          \<and> is_interruption (EvRun f True None)
          \<and> trace w3 = trace w @ (?E1 @ [EvIsInterrupted [] False] @ clean_runs pre)
                @ [EvRun f True None]
          \<and> store w3 = store w \<and> p = save_and_restart env c w3"
          using intr t2 qE1 st2 by simp
        then show ?thesis by blast
      next
        case clean
        let ?ex = "RecycledExportProject profile (Name (Config c)) (DataPath (Config c)) (DotRegolithPath c)"
        let ?x4 = "outcome env (trace w3) ?ex"
        define w4 where "w4 = record_event (EvCall ?ex ?x4) w3"
        have c4: "call env ?ex w3 = (?x4, w4)" by (simp add: call_eq w4_def)
        let ?E3 = "?E1 @ [EvIsInterrupted [] False] @ clean_runs (enabled (Filters profile))"
        have t3: "trace w3 = trace w @ ?E3" using clean(2) t2 by simp
        have qE3: "quiet ?E3" using qE1 by simp
        show ?thesis
        proof (cases ?x4)
          case (Some e)
          let ?cl = "outcome env (trace w4) ClearStates"
          obtain r5 w5 where c5: "ClearCachedStates env w4 = (r5, w5)" by (cases "ClearCachedStates env w4")
          then have t5: "trace w5 = trace w4 @ [EvCall ClearStates ?cl]"
            by (auto simp: ClearCachedStates_eq)
          from assms Inr s1 r1 b1 i2 s3 clean(1) c4 Some c5 obtain err where "p = Finished (Some err) w5"
            by (auto simp: RecycledRunProfile_pass_def split: option.splits)
          then have "p = Finished (Some err) (pass_world p)
            \<and> trace (pass_world p) = trace w @ (?E3 @ [EvCall ?ex ?x4, EvCall ClearStates ?cl])
            \<and> quiet (?E3 @ [EvCall ?ex ?x4, EvCall ClearStates ?cl])"
            using t3 t5 qE1 by (simp add: w4_def)
          then show ?thesis by blast
        next
          case x4: None
          have t4: "trace w4 = trace w @ ?E3 @ [EvCall ?ex None]" using t3 x4 by (simp add: w4_def)
          have st4: "store w4 = store w" using clean(3) st2 by (simp add: w4_def)
          let ?b5 = "pollAnswer env (trace w4) [''data'']"
          define w5 where "w5 = record_event (EvIsInterrupted [''data''] ?b5) w4"
          have i5: "IsInterrupted env [''data''] w4 = (?b5, w5)" by (simp add: IsInterrupted_eq w5_def)
          show ?thesis
          proof (cases ?b5)
            case True
            with assms Inr s1 r1 b1 i2 s3 clean(1) x4 c4 i5 have "p = save_and_restart env c w5"
              by (simp add: RecycledRunProfile_pass_def)
            then have "quiet (?E3 @ [EvCall ?ex None]) \<and> is_interruption (EvIsInterrupted [''data''] True)
              \<and> trace w5 = trace w @ (?E3 @ [EvCall ?ex None]) @ [EvIsInterrupted [''data''] True]
              \<and> store w5 = store w \<and> p = save_and_restart env c w5"
              using t4 qE1 st4 True by (simp add: w5_def)
            then show ?thesis by blast
          next
            case False
            with assms Inr s1 r1 b1 i2 s3 clean(1) x4 c4 i5 have "p = Finished None w5"
              by (simp add: RecycledRunProfile_pass_def)
            then have "p = Finished None (pass_world p)
              \<and> trace (pass_world p) = trace w @ (?E3 @ [EvCall ?ex None, EvIsInterrupted [''data''] False])
              \<and> quiet (?E3 @ [EvCall ?ex None, EvIsInterrupted [''data''] False])"
              using t4 qE1 False by (simp add: w5_def)
            then show ?thesis by blast
          qed
        qed
      qed
    qed
  qed
qed

lemma quietD: "quiet evs \<Longrightarrow> e \<in> set evs \<Longrightarrow> \<not> is_interruption e \<and> \<not> is_save e"
  by (simp add: quiet_def list_all_iff)

lemma interruption_not_save: "is_interruption e \<Longrightarrow> \<not> is_save e"
  by (cases e rule: is_interruption.cases) simp_all

text \<open>
  C8, amended. A pass of \<^verbatim>\<open>RecycledRunProfile\<close> in which an interruption is observed (the poll
  after the sync answers true, a filter reports an interruption, or the poll
  \<^verbatim>\<open>IsInterrupted("data")\<close> after the export answers true) consists of events that are neither
  interruptions nor saves, then the interruption, then the three saves of \<^verbatim>\<open>tmp/RP\<close>,
  \<^verbatim>\<open>tmp/BP\<close> and \<^verbatim>\<open>tmp/data\<close>. When the three succeed the pass goes back to \<^verbatim>\<open>start\<close> with the
  three roots in the persisted store; when one fails, \<^verbatim>\<open>ClearCachedStates\<close> is called, the pass
  returns an error, and after a clear that succeeds the store is empty. A pass of
  \<^verbatim>\<open>RunProfile\<close> in which an interruption is observed ends at the interruption, goes back to
  \<^verbatim>\<open>start\<close> and leaves the store as it was; no pass of \<^verbatim>\<open>RunProfile\<close> ever saves.
\<close>

theorem interruption_persists_or_restarts:
  "(RecycledRunProfile_pass env c w = p \<and> (\<exists>e\<in>set (new_events w (pass_world p)). is_interruption e) \<longrightarrow>
      (\<exists>evs e e1 e2 e3. quiet evs \<and> is_interruption e \<and>
         ((p = Restart (pass_world p) \<and> e1 = None \<and> e2 = None \<and> e3 = None
            \<and> new_events w (pass_world p) = evs @ [e] @ save_events c [e1, e2, e3]
            \<and> set (tmp_roots c) \<subseteq> set (store (pass_world p)))
          \<or> (\<exists>err cl. firstErr [e1, e2, e3] = Some err
            \<and> new_events w (pass_world p)
                = evs @ [e] @ save_events c [e1, e2, e3] @ [EvCall ClearStates cl]
            \<and> p = Finished (Some (PassError (WrapError
                     (case cl of None \<Rightarrow> err | Some ec \<Rightarrow> WrapError ec clearCachedStatesError)
                     (Text ''Failed to save file path states in cache.'')))) (pass_world p)
            \<and> (cl = None \<longrightarrow> store (pass_world p) = [])))))
   \<and> (RunProfile_pass env c w = q \<and> (\<exists>e\<in>set (new_events w (pass_world q)). is_interruption e) \<longrightarrow>
      (\<exists>evs e. quiet evs \<and> is_interruption e \<and> new_events w (pass_world q) = evs @ [e]
         \<and> q = Restart (pass_world q) \<and> store (pass_world q) = store w))
   \<and> (RunProfile_pass env c w = q \<longrightarrow> \<not> (\<exists>e\<in>set (new_events w (pass_world q)). is_save e))"
proof (intro conjI impI)
  assume a: "RecycledRunProfile_pass env c w = p \<and> (\<exists>e\<in>set (new_events w (pass_world p)). is_interruption e)"
  then have pass: "RecycledRunProfile_pass env c w = p" by simp
  from RecycledRunProfile_pass_shape [OF pass] consider
    (intr) evs e w0 where "quiet evs" "is_interruption e" "trace w0 = trace w @ evs @ [e]"
      "p = save_and_restart env c w0"
    | (fin) evs where "trace (pass_world p) = trace w @ evs" "quiet evs"
    by blast
  then show "\<exists>evs e e1 e2 e3. quiet evs \<and> is_interruption e \<and>
         ((p = Restart (pass_world p) \<and> e1 = None \<and> e2 = None \<and> e3 = None
            \<and> new_events w (pass_world p) = evs @ [e] @ save_events c [e1, e2, e3]
            \<and> set (tmp_roots c) \<subseteq> set (store (pass_world p)))
          \<or> (\<exists>err cl. firstErr [e1, e2, e3] = Some err
            \<and> new_events w (pass_world p)
                = evs @ [e] @ save_events c [e1, e2, e3] @ [EvCall ClearStates cl]
            \<and> p = Finished (Some (PassError (WrapError
                     (case cl of None \<Rightarrow> err | Some ec \<Rightarrow> WrapError ec clearCachedStatesError)
                     (Text ''Failed to save file path states in cache.'')))) (pass_world p)
            \<and> (cl = None \<longrightarrow> store (pass_world p) = [])))"
  proof cases
    case fin
    then have "new_events w (pass_world p) = evs" by (simp add: new_events_append)
    with a quietD [OF fin(2)] show ?thesis by blast
  next
    case intr
    from save_and_restart_cases [OF intr(4) [symmetric]] obtain e1 e2 e3 where
      d: "(p = Restart (pass_world p) \<and> e1 = None \<and> e2 = None \<and> e3 = None
        \<and> trace (pass_world p) = trace w0 @ save_events c [e1, e2, e3]
        \<and> set (tmp_roots c) \<subseteq> set (store (pass_world p)))
      \<or> (\<exists>err cl. firstErr [e1, e2, e3] = Some err
        \<and> trace (pass_world p) = trace w0 @ save_events c [e1, e2, e3] @ [EvCall ClearStates cl]
        \<and> p = Finished (Some (PassError (WrapError (case cl of None \<Rightarrow> err
                                 | Some ec \<Rightarrow> WrapError ec clearCachedStatesError)
                       (Text ''Failed to save file path states in cache.'')))) (pass_world p)
        \<and> (cl = None \<longrightarrow> store (pass_world p) = []))" by blast
    have n: "\<And>tl. trace (pass_world p) = trace w0 @ tl \<Longrightarrow> new_events w (pass_world p) = evs @ [e] @ tl"
      using intr(3) by (simp add: new_events_append)
    have "quiet evs \<and> is_interruption e \<and>
         ((p = Restart (pass_world p) \<and> e1 = None \<and> e2 = None \<and> e3 = None
            \<and> new_events w (pass_world p) = evs @ [e] @ save_events c [e1, e2, e3]
            \<and> set (tmp_roots c) \<subseteq> set (store (pass_world p)))
          \<or> (\<exists>err cl. firstErr [e1, e2, e3] = Some err
            \<and> new_events w (pass_world p)
                = evs @ [e] @ save_events c [e1, e2, e3] @ [EvCall ClearStates cl]
            \<and> p = Finished (Some (PassError (WrapError
                     (case cl of None \<Rightarrow> err | Some ec \<Rightarrow> WrapError ec clearCachedStatesError)
                     (Text ''Failed to save file path states in cache.'')))) (pass_world p)
            \<and> (cl = None \<longrightarrow> store (pass_world p) = [])))"
      using d intr(1,2) n by blast
    then show ?thesis by blast
  qed
next
  assume a: "RunProfile_pass env c w = q \<and> (\<exists>e\<in>set (new_events w (pass_world q)). is_interruption e)"
  then have pass: "RunProfile_pass env c w = q" by simp
  from RunProfile_pass_shape [OF pass] consider
    (intr) evs e where "quiet evs" "is_interruption e" "trace (pass_world q) = trace w @ evs @ [e]"
      "store (pass_world q) = store w" "q = Restart (pass_world q)"
    | (fin) evs where "trace (pass_world q) = trace w @ evs" "quiet evs"
    by blast
  then show "\<exists>evs e. quiet evs \<and> is_interruption e \<and> new_events w (pass_world q) = evs @ [e]
         \<and> q = Restart (pass_world q) \<and> store (pass_world q) = store w"
  proof cases
    case fin
    then have "new_events w (pass_world q) = evs" by (simp add: new_events_append)
    with a quietD [OF fin(2)] show ?thesis by blast
  next
    case intr
    then have "new_events w (pass_world q) = evs @ [e]" by (simp add: new_events_append)
    with intr show ?thesis by blast
  qed
next
  assume pass: "RunProfile_pass env c w = q"
  from RunProfile_pass_shape [OF pass] consider
    (intr) evs e where "quiet evs" "is_interruption e" "trace (pass_world q) = trace w @ evs @ [e]"
    | (fin) evs where "trace (pass_world q) = trace w @ evs" "quiet evs"
    by blast
  then show "\<not> (\<exists>e\<in>set (new_events w (pass_world q)). is_save e)"
  proof cases
    case fin
    then have "new_events w (pass_world q) = evs" by (simp add: new_events_append)
    with quietD [OF fin(2)] show ?thesis by blast
  next
    case intr
    then have "new_events w (pass_world q) = evs @ [e]" by (simp add: new_events_append)
    with quietD [OF intr(1)] interruption_not_save [OF intr(2)] show ?thesis by auto
  qed
qed

lemma ex3_simps:
  "outcome interrupted_once_env h c = None"
  "statAnswer interrupted_once_env h p = StatDir"
  "pollAnswer interrupted_once_env h a = (\<not> list_ex is_poll h)"
  "runAnswer interrupted_once_env h f = (False, None)"
  "outcome save_failing_env h c = (case c of SaveState p \<Rightarrow> Some (External ''disk full'') | _ \<Rightarrow> None)"
  "statAnswer save_failing_env h p = StatDir"
  "pollAnswer save_failing_env h a = (\<not> list_ex is_poll h)"
  "runAnswer save_failing_env h f = (False, None)"
  by (simp_all add: interrupted_once_env_def save_failing_env_def)

lemma example_context_simps:
  "DotRegolithPath example_context = ''.regolith''"
  "Config example_context = example_config"
  "ResourceFolder example_config = ''packs/RP''"
  "BehaviorFolder example_config = ''packs/BP''"
  "DataPath example_config = ''packs/data''"
  "Name example_config = ''pack''"
  by (simp_all add: example_context_def example_config_def)

lemma Recycled_pass_persisted:
  "RecycledRunProfile_pass interrupted_once_env example_context fresh_world = Restart persisted_world"
  by (simp add: RecycledRunProfile_pass_def GetProfile_example RecycledSetupTmpFiles_def
      example_context_simps call_eq IsInterrupted_eq ex3_simps save_and_restart_def saveTmp_def
      SaveStateInDefaultCache_eq Join_simps record_event_def fresh_world_def
      persisted_world_def Let_def)

lemma Recycled_pass_save_failed:
  "RecycledRunProfile_pass save_failing_env example_context fresh_world =
     Finished (Some (PassError (WrapError (External ''disk full'')
                (Text ''Failed to save file path states in cache.'')))) save_failed_world"
  by (simp add: RecycledRunProfile_pass_def GetProfile_example RecycledSetupTmpFiles_def
      example_context_simps call_eq IsInterrupted_eq ex3_simps save_and_restart_def saveTmp_def
      SaveStateInDefaultCache_eq ClearCachedStates_eq Join_simps record_event_def
      fresh_world_def save_failed_world_def Let_def)

lemma RunProfile_pass_restarted:
  "RunProfile_pass interrupted_once_env example_context fresh_world = Restart restarted_world"
  by (simp add: RunProfile_pass_def GetProfile_example SetupTmpFiles_def setup_tmp_directory_def
      example_context_simps call_eq os_Stat_eq IsInterrupted_eq ex3_simps Join_simps
      record_event_def fresh_world_def restarted_world_def Let_def)

theorem interruption_persists_or_restarts_witness:
  "RecycledRunProfile_pass interrupted_once_env example_context fresh_world = Restart persisted_world
   \<and> EvIsInterrupted [] True \<in> set (new_events fresh_world persisted_world)
   \<and> set (tmp_roots example_context) \<subseteq> set (store persisted_world)
   \<and> (\<exists>evs e. quiet evs \<and> is_interruption e
        \<and> new_events fresh_world persisted_world
            = evs @ [e] @ save_events example_context [None, None, None])
   \<and> RecycledRunProfile_pass save_failing_env example_context fresh_world =
       Finished (Some (PassError (WrapError (External ''disk full'')
                  (Text ''Failed to save file path states in cache.'')))) save_failed_world
   \<and> EvIsInterrupted [] True \<in> set (new_events fresh_world save_failed_world)
   \<and> last (trace save_failed_world) = EvCall ClearStates None
   \<and> store save_failed_world = []
   \<and> (\<exists>evs e e1 e2 e3 err cl. quiet evs \<and> is_interruption e \<and> firstErr [e1, e2, e3] = Some err
        \<and> new_events fresh_world save_failed_world
            = evs @ [e] @ save_events example_context [e1, e2, e3] @ [EvCall ClearStates cl])
   \<and> RunProfile_pass interrupted_once_env example_context fresh_world = Restart restarted_world
   \<and> EvIsInterrupted [] True \<in> set (new_events fresh_world restarted_world)
   \<and> \<not> (\<exists>e\<in>set (new_events fresh_world restarted_world). is_save e)
   \<and> (\<exists>evs e. quiet evs \<and> is_interruption e
        \<and> new_events fresh_world (pass_world (Restart restarted_world)) = evs @ [e]
        \<and> Restart restarted_world = Restart (pass_world (Restart restarted_world))
        \<and> store (pass_world (Restart restarted_world)) = store fresh_world)"
proof -
  note T = interruption_persists_or_restarts [of interrupted_once_env example_context fresh_world
      "Restart persisted_world" "Restart restarted_world"]
  have h1: "EvIsInterrupted [] True \<in> set (new_events fresh_world persisted_world)"
    by (simp add: new_events_def fresh_world_def persisted_world_def)
  have h2: "EvIsInterrupted [] True \<in> set (new_events fresh_world save_failed_world)"
    by (simp add: new_events_def fresh_world_def save_failed_world_def)
  have h3: "EvIsInterrupted [] True \<in> set (new_events fresh_world restarted_world)"
    by (simp add: new_events_def fresh_world_def restarted_world_def)
  have i3: "\<exists>e\<in>set (new_events fresh_world (pass_world (Restart restarted_world))). is_interruption e"
    using h3 by (auto intro!: bexI [of _ "EvIsInterrupted [] True"])
  have c3: "\<exists>evs e. quiet evs \<and> is_interruption e
        \<and> new_events fresh_world (pass_world (Restart restarted_world)) = evs @ [e]
        \<and> Restart restarted_world = Restart (pass_world (Restart restarted_world))
        \<and> store (pass_world (Restart restarted_world)) = store fresh_world"
    using T RunProfile_pass_restarted i3 by blast
  have c4: "\<not> (\<exists>e\<in>set (new_events fresh_world restarted_world). is_save e)"
    using T RunProfile_pass_restarted by simp
  note T2 = interruption_persists_or_restarts [of save_failing_env example_context fresh_world
      "Finished (Some (PassError (WrapError (External ''disk full'')
                (Text ''Failed to save file path states in cache.'')))) save_failed_world"]
  have i1: "\<exists>e\<in>set (new_events fresh_world (pass_world (Restart persisted_world))). is_interruption e"
    using h1 by (auto intro!: bexI [of _ "EvIsInterrupted [] True"])
  have i2: "\<exists>e\<in>set (new_events fresh_world (pass_world (Finished (Some (PassError (WrapError
                (External ''disk full'') (Text ''Failed to save file path states in cache.''))))
                save_failed_world))). is_interruption e"
    using h2 by (auto intro!: bexI [of _ "EvIsInterrupted [] True"])
  from T [THEN conjunct1, THEN mp, OF conjI, OF Recycled_pass_persisted i1]
  have c1: "\<exists>evs e. quiet evs \<and> is_interruption e
        \<and> new_events fresh_world persisted_world
            = evs @ [e] @ save_events example_context [None, None, None]"
    by auto
  from T [THEN conjunct1, THEN mp, OF conjI, OF Recycled_pass_persisted i1]
  have s1: "set (tmp_roots example_context) \<subseteq> set (store persisted_world)"
    by auto
  from T2 [THEN conjunct1, THEN mp, OF conjI, OF Recycled_pass_save_failed i2]
  have "\<exists>evs e e1 e2 e3. quiet evs \<and> is_interruption e \<and> (\<exists>err cl. firstErr [e1, e2, e3] = Some err
        \<and> new_events fresh_world save_failed_world
            = evs @ [e] @ save_events example_context [e1, e2, e3] @ [EvCall ClearStates cl])"
    by (simp del: firstErr.simps append.simps append_assoc) blast
  then have c2: "\<exists>evs e e1 e2 e3 err cl. quiet evs \<and> is_interruption e \<and> firstErr [e1, e2, e3] = Some err
        \<and> new_events fresh_world save_failed_world
            = evs @ [e] @ save_events example_context [e1, e2, e3] @ [EvCall ClearStates cl]"
    by blast
  have s2: "last (trace save_failed_world) = EvCall ClearStates None" "store save_failed_world = []"
    by (simp_all add: save_failed_world_def)
  show ?thesis
    using Recycled_pass_persisted h1 s1 c1 Recycled_pass_save_failed h2 s2 c2
      RunProfile_pass_restarted h3 c4 c3 by blast
qed

text \<open>
  C8, as stated, fails: when the saves fail and \<^verbatim>\<open>ClearCachedStates\<close> fails too, the pass
  returns its error with the persisted store as it was, not cleared; and a change of the data
  folder during the export, which the poll after the export ignores, is followed by no save and
  no new pass: the run returns.
\<close>

theorem Recycled_pass_keeps_state_or_returns:
  "RecycledRunProfile_pass locked_cache_env example_context cached_world =
     Finished (Some (PassError (WrapError
                 (WrapError (External ''cache locked'') clearCachedStatesError)
                 (Text ''Failed to save file path states in cache.''))))
       \<lparr>store = [''.regolith/tmp/RP''],
        trace =
          [EvCall (MkdirAll ''.regolith/tmp'') None,
           EvCall (FullRecycledMoveOrCopy ''packs/RP'' ''.regolith/tmp/RP'' recycle_settings) None,
           EvCall (FullRecycledMoveOrCopy ''packs/BP'' ''.regolith/tmp/BP'' recycle_settings) None,
           EvCall (FullRecycledMoveOrCopy ''packs/data'' ''.regolith/tmp/data'' recycle_settings) None,
           EvIsInterrupted [] True,
           EvCall (SaveState ''.regolith/tmp/RP'') (Some (External ''cache locked'')),
           EvCall (SaveState ''.regolith/tmp/BP'') (Some (External ''cache locked'')),
           EvCall (SaveState ''.regolith/tmp/data'') (Some (External ''cache locked'')),
           EvCall ClearStates (Some (External ''cache locked''))]\<rparr>
   \<and> RecycledRunProfile_pass data_change_env example_context fresh_world =
     Finished None
       \<lparr>store = [],
        trace =
          [EvCall (MkdirAll ''.regolith/tmp'') None,
           EvCall (FullRecycledMoveOrCopy ''packs/RP'' ''.regolith/tmp/RP'' recycle_settings) None,
           EvCall (FullRecycledMoveOrCopy ''packs/BP'' ''.regolith/tmp/BP'' recycle_settings) None,
           EvCall (FullRecycledMoveOrCopy ''packs/data'' ''.regolith/tmp/data'' recycle_settings) None,
           EvIsInterrupted [] False,
           EvRun (LocalFilter ''B'' False []) False None,
           EvCall (RecycledExportProject
              \<lparr>Filters = [LocalFilter ''A'' True [], LocalFilter ''B'' False []],
               ExportTarget = ''local''\<rparr> ''pack'' ''packs/data'' ''.regolith'') None,
           EvIsInterrupted [''data''] False]\<rparr>"
  by (simp add: RecycledRunProfile_pass_def GetProfile_example RecycledSetupTmpFiles_def
      example_context_simps call_eq IsInterrupted_eq env2_simps save_and_restart_def saveTmp_def
      SaveStateInDefaultCache_eq ClearCachedStates_eq WatchProfileImpl_def Run_eq
      Join_simps record_event_def fresh_world_def cached_world_def Let_def)

section \<open>Runs of the loops\<close>

lemma polls_simps [simp]:
  "polls [] = 0" "polls (a @ b) = polls a + polls b"
  "polls (e # h) = (if is_poll e then Suc (polls h) else polls h)"
  by (simp_all add: polls_def)

lemma copy_events_count:
  "list_all copy_event evs \<Longrightarrow>
     polls evs = 0 \<and> ran evs = [] \<and> calls (RemoveAll t) evs = 0
     \<and> calls (ExportProject p n d r) evs = 0"
proof (induction evs)
  case Nil then show ?case by simp
next
  case (Cons e evs)
  then have "copy_event e" by simp
  then have "\<not> is_poll e \<and> ran [e] = [] \<and> \<not> is_call (RemoveAll t) e \<and> \<not> is_call (ExportProject p n d r) e"
    by (cases e rule: copy_event.cases) simp_all
  moreover have "ran (e # evs) = ran [e] @ ran evs" using ran_append [of "[e]" evs] by simp
  ultimately show ?case using Cons by simp
qed

lemma recycle_events_count:
  "list_all recycle_event evs \<Longrightarrow>
     polls evs = 0 \<and> ran evs = [] \<and> calls (MkdirAll t) evs = 0
     \<and> calls (RecycledExportProject p n d r) evs = 0"
proof (induction evs)
  case Nil then show ?case by simp
next
  case (Cons e evs)
  then have "recycle_event e" by simp
  then have "\<not> is_poll e \<and> ran [e] = [] \<and> \<not> is_call (MkdirAll t) e
      \<and> \<not> is_call (RecycledExportProject p n d r) e"
    by (cases e rule: recycle_event.cases) simp_all
  moreover have "ran (e # evs) = ran [e] @ ran evs" using ran_append [of "[e]" evs] by simp
  ultimately show ?case using Cons by simp
qed

lemma clean_runs_count [simp]:
  "polls (clean_runs fs) = 0" "calls c (clean_runs fs) = 0"
  by (induction fs) (simp_all add: clean_runs_def)

lemma save_events_count [simp]:
  "polls (save_events c rs) = 0" "ran (save_events c rs) = []"
  "calls (MkdirAll t) (save_events c rs) = 0"
  "calls (RecycledExportProject p n d r) (save_events c rs) = 0"
proof -
  have "\<And>xs. polls (map (\<lambda>(p, r). EvCall (SaveState p) r) xs) = 0
      \<and> ran (map (\<lambda>(p, r). EvCall (SaveState p) r) xs) = []
      \<and> calls (MkdirAll t) (map (\<lambda>(p, r). EvCall (SaveState p) r) xs) = 0
      \<and> calls (RecycledExportProject p n d r) (map (\<lambda>(p, r). EvCall (SaveState p) r) xs) = 0"
  proof -
    fix xs :: "(string \<times> error option) list"
    show "polls (map (\<lambda>(p, r). EvCall (SaveState p) r) xs) = 0
      \<and> ran (map (\<lambda>(p, r). EvCall (SaveState p) r) xs) = []
      \<and> calls (MkdirAll t) (map (\<lambda>(p, r). EvCall (SaveState p) r) xs) = 0
      \<and> calls (RecycledExportProject p n d r) (map (\<lambda>(p, r). EvCall (SaveState p) r) xs) = 0"
      by (induction xs) (simp_all add: split_def)
  qed
  then show "polls (save_events c rs) = 0" "ran (save_events c rs) = []"
    "calls (MkdirAll t) (save_events c rs) = 0"
    "calls (RecycledExportProject p n d r) (save_events c rs) = 0"
    by (simp_all add: save_events_def)
qed

lemma RecycledSetupTmpFiles_ok:
  assumes "\<forall>h x. outcome env h x = None"
  shows "fst (RecycledSetupTmpFiles env cfg p dot w) = None"
  using assms
  by (simp add: RecycledSetupTmpFiles_def Let_def call_eq)

lemma run_filters_clean:
  assumes "\<forall>h f. runAnswer env h f = (False, None)"
  shows "\<exists>w'. run_filters env c fs w = ((False, None), w')
           \<and> trace w' = trace w @ clean_runs (enabled fs) \<and> store w' = store w"
proof (induction fs arbitrary: w)
  case Nil
  then show ?case by (simp add: enabled_def clean_runs_def)
next
  case (Cons f fs)
  show ?case
  proof (cases "IsDisabled f")
    case True
    with Cons [of w] show ?thesis by (simp add: enabled_def)
  next
    case False
    let ?w1 = "record_event (EvRun f False None) w"
    from Cons [of ?w1] obtain w' where
      "run_filters env c fs ?w1 = ((False, None), w')"
      "trace w' = trace ?w1 @ clean_runs (enabled fs)" "store w' = store ?w1" by blast
    then show ?thesis using False assms
      by (simp add: Run_eq enabled_def clean_runs_def)
  qed
qed

lemma saveTmp_ok:
  assumes "\<forall>h x. outcome env h x = None"
  shows "\<exists>w'. saveTmp env c w = (None, w') \<and> trace w' = trace w @ save_events c [None, None, None]"
  using assms
  by (simp add: saveTmp_def SaveStateInDefaultCache_eq save_events_def tmp_roots_def)

text \<open>
  Passes in an environment where every call succeeds, no path is a file, no filter fails or
  interrupts and the first two polls answer an interruption: a pass that starts with fewer than
  two polls behind it goes back to \<^verbatim>\<open>start\<close> after its sync, a later one runs the filters,
  exports and returns.
\<close>

lemma RunProfile_pass_calm:
  assumes ok: "\<forall>h x. outcome env h x = None"
    and nofile: "\<forall>h q. statAnswer env h q \<noteq> StatFile"
    and clean: "\<forall>h f. runAnswer env h f = (False, None)"
    and sig: "\<forall>h a. pollAnswer env h a = (polls h < 2)"
    and prof: "GetProfile c = Inr p"
  shows "\<exists>w1 evs. trace w1 = trace w @ evs
      \<and> calls (RemoveAll (filepath_Join (DotRegolithPath c) ''tmp'')) evs = 1
      \<and> (if polls (trace w) < 2
          then RunProfile_pass env c w = Restart w1 \<and> polls evs = 1 \<and> ran evs = []
            \<and> calls (ExportProject p (Name (Config c)) (DataPath (Config c)) (DotRegolithPath c)) evs = 0
          else RunProfile_pass env c w = Finished None w1 \<and> ran evs = enabled (Filters p)
            \<and> calls (ExportProject p (Name (Config c)) (DataPath (Config c)) (DotRegolithPath c)) evs = 1)"
proof -
  let ?tmp = "filepath_Join (DotRegolithPath c) ''tmp''"
  let ?ex = "ExportProject p (Name (Config c)) (DataPath (Config c)) (DotRegolithPath c)"
  obtain r1 w1 where s1: "SetupTmpFiles env (Config c) p (DotRegolithPath c) w = (r1, w1)"
    by (cases "SetupTmpFiles env (Config c) p (DotRegolithPath c) w")
  have r1: "r1 = None" using SetupTmpFiles_ok [OF ok nofile, of "Config c" p "DotRegolithPath c" w] s1
    by simp
  from SetupTmpFiles_events [OF s1] ok obtain evs1 where
    t1: "trace w1 = trace w @ EvCall (RemoveAll ?tmp) None # evs1"
    and q1: "list_all copy_event evs1" by auto
  note cnt = copy_events_count [OF q1]
  have p1: "polls (trace w1) = polls (trace w)" using t1 cnt by simp
  define w2 where "w2 = record_event (EvIsInterrupted [] (polls (trace w) < 2)) w1"
  have i2: "IsInterrupted env [] w1 = (polls (trace w) < 2, w2)"
    using sig p1 by (simp add: IsInterrupted_eq w2_def)
  show ?thesis
  proof (cases "polls (trace w) < 2")
    case True
    have "RunProfile_pass env c w = Restart w2"
      using prof s1 r1 i2 True by (simp add: RunProfile_pass_def)
    moreover have "trace w2 = trace w @ (EvCall (RemoveAll ?tmp) None # evs1 @ [EvIsInterrupted [] True])"
      using t1 True by (simp add: w2_def)
    moreover have "calls (RemoveAll ?tmp) (EvCall (RemoveAll ?tmp) None # evs1 @ [EvIsInterrupted [] True]) = 1"
      "polls (EvCall (RemoveAll ?tmp) None # evs1 @ [EvIsInterrupted [] True]) = 1"
      "ran (EvCall (RemoveAll ?tmp) None # evs1 @ [EvIsInterrupted [] True]) = []"
      "calls ?ex (EvCall (RemoveAll ?tmp) None # evs1 @ [EvIsInterrupted [] True]) = 0"
      using cnt by simp_all
    ultimately show ?thesis using True by (intro exI [of _ w2] exI [of _ "EvCall (RemoveAll ?tmp) None # evs1 @ [EvIsInterrupted [] True]"]) simp
  next
    case False
    have t2: "trace w2 = trace w @ EvCall (RemoveAll ?tmp) None # evs1 @ [EvIsInterrupted [] False]"
      using t1 False by (simp add: w2_def)
    from run_filters_clean [OF clean, of c "Filters p" w2] obtain w3 where
      s3: "WatchProfileImpl env c w2 = ((False, None), w3)"
      and t3: "trace w3 = trace w2 @ clean_runs (enabled (Filters p))"
      using prof by (auto simp: WatchProfileImpl_def)
    define w4 where "w4 = record_event (EvCall ?ex None) w3"
    have c4: "call env ?ex w3 = (None, w4)" using ok by (simp add: call_eq w4_def)
    have p4: "polls (trace w4) = Suc (polls (trace w))" using t3 t2 cnt by (simp add: w4_def)
    define w5 where "w5 = record_event (EvIsInterrupted [''data''] False) w4"
    have i5: "IsInterrupted env [''data''] w4 = (False, w5)"
      using sig p4 False by (simp add: IsInterrupted_eq w5_def)
    let ?evs = "EvCall (RemoveAll ?tmp) None # evs1 @ [EvIsInterrupted [] False]
        @ clean_runs (enabled (Filters p)) @ [EvCall ?ex None, EvIsInterrupted [''data''] False]"
    have "RunProfile_pass env c w = Finished None w5"
      using prof s1 r1 i2 False s3 c4 i5 by (simp add: RunProfile_pass_def)
    moreover have "trace w5 = trace w @ ?evs" using t3 t2 by (simp add: w5_def w4_def)
    moreover have "calls (RemoveAll ?tmp) ?evs = 1" "ran ?evs = enabled (Filters p)" "calls ?ex ?evs = 1"
      using cnt by simp_all
    ultimately show ?thesis using False by (intro exI [of _ w5] exI [of _ ?evs]) simp
  qed
qed

lemma RecycledRunProfile_pass_calm:
  assumes ok: "\<forall>h x. outcome env h x = None"
    and clean: "\<forall>h f. runAnswer env h f = (False, None)"
    and sig: "\<forall>h a. pollAnswer env h a = (polls h < 2)"
    and prof: "GetProfile c = Inr p"
  shows "\<exists>w1 evs. trace w1 = trace w @ evs
      \<and> calls (MkdirAll (filepath_Join (DotRegolithPath c) ''tmp'')) evs = 1
      \<and> (if polls (trace w) < 2
          then RecycledRunProfile_pass env c w = Restart w1 \<and> polls evs = 1 \<and> ran evs = []
            \<and> calls (RecycledExportProject p (Name (Config c)) (DataPath (Config c)) (DotRegolithPath c)) evs = 0
          else RecycledRunProfile_pass env c w = Finished None w1 \<and> ran evs = enabled (Filters p)
            \<and> calls (RecycledExportProject p (Name (Config c)) (DataPath (Config c)) (DotRegolithPath c)) evs = 1)"
proof -
  let ?tmp = "filepath_Join (DotRegolithPath c) ''tmp''"
  let ?ex = "RecycledExportProject p (Name (Config c)) (DataPath (Config c)) (DotRegolithPath c)"
  obtain r1 w1 where s1: "RecycledSetupTmpFiles env (Config c) p (DotRegolithPath c) w = (r1, w1)"
    by (cases "RecycledSetupTmpFiles env (Config c) p (DotRegolithPath c) w")
  have r1: "r1 = None" using RecycledSetupTmpFiles_ok [OF ok, of "Config c" p "DotRegolithPath c" w] s1
    by simp
  from RecycledSetupTmpFiles_events [OF s1] ok obtain evs1 where
    t1: "trace w1 = trace w @ EvCall (MkdirAll ?tmp) None # evs1"
    and q1: "list_all recycle_event evs1" by auto
  note cnt = recycle_events_count [OF q1]
  have p1: "polls (trace w1) = polls (trace w)" using t1 cnt by simp
  define w2 where "w2 = record_event (EvIsInterrupted [] (polls (trace w) < 2)) w1"
  have i2: "IsInterrupted env [] w1 = (polls (trace w) < 2, w2)"
    using sig p1 by (simp add: IsInterrupted_eq w2_def)
  show ?thesis
  proof (cases "polls (trace w) < 2")
    case True
    from saveTmp_ok [OF ok, of c w2] obtain w3 where
      s3: "saveTmp env c w2 = (None, w3)"
      and t3: "trace w3 = trace w2 @ save_events c [None, None, None]" by blast
    let ?evs = "EvCall (MkdirAll ?tmp) None # evs1 @ [EvIsInterrupted [] True]
        @ save_events c [None, None, None]"
    have "RecycledRunProfile_pass env c w = Restart w3"
      using prof s1 r1 i2 True s3 by (simp add: RecycledRunProfile_pass_def save_and_restart_def)
    moreover have "trace w3 = trace w @ ?evs"
      using t1 t3 True by (simp add: w2_def)
    moreover have "calls (MkdirAll ?tmp) ?evs = 1" "polls ?evs = 1" "ran ?evs = []" "calls ?ex ?evs = 0"
      using cnt by simp_all
    ultimately show ?thesis using True by (intro exI [of _ w3] exI [of _ ?evs]) simp
  next
    case False
    have t2: "trace w2 = trace w @ EvCall (MkdirAll ?tmp) None # evs1 @ [EvIsInterrupted [] False]"
      using t1 False by (simp add: w2_def)
    from run_filters_clean [OF clean, of c "Filters p" w2] obtain w3 where
      s3: "WatchProfileImpl env c w2 = ((False, None), w3)"
      and t3: "trace w3 = trace w2 @ clean_runs (enabled (Filters p))"
      using prof by (auto simp: WatchProfileImpl_def)
    define w4 where "w4 = record_event (EvCall ?ex None) w3"
    have c4: "call env ?ex w3 = (None, w4)" using ok by (simp add: call_eq w4_def)
    have p4: "polls (trace w4) = Suc (polls (trace w))" using t3 t2 cnt by (simp add: w4_def)
    define w5 where "w5 = record_event (EvIsInterrupted [''data''] False) w4"
    have i5: "IsInterrupted env [''data''] w4 = (False, w5)"
      using sig p4 False by (simp add: IsInterrupted_eq w5_def)
    let ?evs = "EvCall (MkdirAll ?tmp) None # evs1 @ [EvIsInterrupted [] False]
        @ clean_runs (enabled (Filters p)) @ [EvCall ?ex None, EvIsInterrupted [''data''] False]"
    have "RecycledRunProfile_pass env c w = Finished None w5"
      using prof s1 r1 i2 False s3 c4 i5 by (simp add: RecycledRunProfile_pass_def)
    moreover have "trace w5 = trace w @ ?evs" using t3 t2 by (simp add: w5_def w4_def)
    moreover have "calls (MkdirAll ?tmp) ?evs = 1" "ran ?evs = enabled (Filters p)" "calls ?ex ?evs = 1"
      using cnt by simp_all
    ultimately show ?thesis using False by (intro exI [of _ w5] exI [of _ ?evs]) simp
  qed
qed

text \<open>
  C3. When every outside call succeeds, no source path is a file, no filter fails or reports an
  interruption, and the polls of the interruption signal answer interrupt, interrupt and none
  from then on, a run that starts with no poll behind it returns without error within three
  passes, having synced exactly three times, run each enabled filter of the profile exactly once,
  in order, and exported exactly once. This holds for \<^verbatim>\<open>RunProfile\<close> and for
  \<^verbatim>\<open>RecycledRunProfile\<close>.
\<close>

theorem interruption_loop_shape:
  assumes ok: "\<forall>h x. outcome env h x = None"
    and nofile: "\<forall>h q. statAnswer env h q \<noteq> StatFile"
    and clean: "\<forall>h f. runAnswer env h f = (False, None)"
    and sig: "\<forall>h a. pollAnswer env h a = (polls h < 2)"
    and prof: "GetProfile c = Inr p"
    and fresh: "polls (trace w) = 0"
  shows "(\<exists>w'. RunProfile (Suc (Suc (Suc n))) env c w = Some (None, w')
           \<and> calls (RemoveAll (filepath_Join (DotRegolithPath c) ''tmp'')) (new_events w w') = 3
           \<and> ran (new_events w w') = filter (\<lambda>f. \<not> IsDisabled f) (Filters p)
           \<and> calls (ExportProject p (Name (Config c)) (DataPath (Config c)) (DotRegolithPath c))
                (new_events w w') = 1)
       \<and> (\<exists>w'. RecycledRunProfile (Suc (Suc (Suc n))) env c w = Some (None, w')
           \<and> calls (MkdirAll (filepath_Join (DotRegolithPath c) ''tmp'')) (new_events w w') = 3
           \<and> ran (new_events w w') = filter (\<lambda>f. \<not> IsDisabled f) (Filters p)
           \<and> calls (RecycledExportProject p (Name (Config c)) (DataPath (Config c)) (DotRegolithPath c))
                (new_events w w') = 1)"
proof (rule conjI)
  let ?tmp = "filepath_Join (DotRegolithPath c) ''tmp''"
  let ?ex = "ExportProject p (Name (Config c)) (DataPath (Config c)) (DotRegolithPath c)"
  note pass = RunProfile_pass_calm [OF ok nofile clean sig prof]
  obtain r0 w0 where c0: "ClearCachedStates env w = (r0, w0)" by (cases "ClearCachedStates env w")
  then have t0: "trace w0 = trace w @ [EvCall ClearStates None]"
    using ok by (auto simp: ClearCachedStates_eq)
  have p0: "polls (trace w0) = 0" using t0 fresh by simp
  from pass [of w0] p0 obtain w1 e1 where
    1: "trace w1 = trace w0 @ e1" "calls (RemoveAll ?tmp) e1 = 1" "RunProfile_pass env c w0 = Restart w1"
      "polls e1 = 1" "ran e1 = []" "calls ?ex e1 = 0"
    by auto
  have p1: "polls (trace w1) = 1" using 1 p0 by simp
  from pass [of w1] p1 obtain w2 e2 where
    2: "trace w2 = trace w1 @ e2" "calls (RemoveAll ?tmp) e2 = 1" "RunProfile_pass env c w1 = Restart w2"
      "polls e2 = 1" "ran e2 = []" "calls ?ex e2 = 0"
    by auto
  have p2: "polls (trace w2) = 2" using 2 p1 by simp
  from pass [of w2] p2 obtain w3 e3 where
    3: "trace w3 = trace w2 @ e3" "calls (RemoveAll ?tmp) e3 = 1" "RunProfile_pass env c w2 = Finished None w3"
      "ran e3 = enabled (Filters p)" "calls ?ex e3 = 1"
    by auto
  have run: "RunProfile (Suc (Suc (Suc n))) env c w = Some (None, w3)"
    using c0 1(3) 2(3) 3(3) by (simp add: RunProfile_def)
  have "trace w3 = trace w @ (EvCall ClearStates None # e1 @ e2 @ e3)"
    using t0 1(1) 2(1) 3(1) by simp
  then have n: "new_events w w3 = EvCall ClearStates None # e1 @ e2 @ e3"
    by (rule new_events_append)
  have "calls (RemoveAll ?tmp) (new_events w w3) = 3"
    "ran (new_events w w3) = filter (\<lambda>f. \<not> IsDisabled f) (Filters p)"
    "calls ?ex (new_events w w3) = 1"
    unfolding n using 1 2 3 by (simp_all add: enabled_def)
  with run show "\<exists>w'. RunProfile (Suc (Suc (Suc n))) env c w = Some (None, w')
           \<and> calls (RemoveAll ?tmp) (new_events w w') = 3
           \<and> ran (new_events w w') = filter (\<lambda>f. \<not> IsDisabled f) (Filters p)
           \<and> calls ?ex (new_events w w') = 1" by blast
next
  let ?tmp = "filepath_Join (DotRegolithPath c) ''tmp''"
  let ?ex = "RecycledExportProject p (Name (Config c)) (DataPath (Config c)) (DotRegolithPath c)"
  note pass = RecycledRunProfile_pass_calm [OF ok clean sig prof]
  from pass [of w] fresh obtain w1 e1 where
    1: "trace w1 = trace w @ e1" "calls (MkdirAll ?tmp) e1 = 1" "RecycledRunProfile_pass env c w = Restart w1"
      "polls e1 = 1" "ran e1 = []" "calls ?ex e1 = 0"
    by auto
  have p1: "polls (trace w1) = 1" using 1 fresh by simp
  from pass [of w1] p1 obtain w2 e2 where
    2: "trace w2 = trace w1 @ e2" "calls (MkdirAll ?tmp) e2 = 1" "RecycledRunProfile_pass env c w1 = Restart w2"
      "polls e2 = 1" "ran e2 = []" "calls ?ex e2 = 0"
    by auto
  have p2: "polls (trace w2) = 2" using 2 p1 by simp
  from pass [of w2] p2 obtain w3 e3 where
    3: "trace w3 = trace w2 @ e3" "calls (MkdirAll ?tmp) e3 = 1" "RecycledRunProfile_pass env c w2 = Finished None w3"
      "ran e3 = enabled (Filters p)" "calls ?ex e3 = 1"
    by auto
  have run: "RecycledRunProfile (Suc (Suc (Suc n))) env c w = Some (None, w3)"
    using 1(3) 2(3) 3(3) by simp
  have "trace w3 = trace w @ (e1 @ e2 @ e3)"
    using 1(1) 2(1) 3(1) by simp
  then have n: "new_events w w3 = e1 @ e2 @ e3"
    by (rule new_events_append)
  have "calls (MkdirAll ?tmp) (new_events w w3) = 3"
    "ran (new_events w w3) = filter (\<lambda>f. \<not> IsDisabled f) (Filters p)"
    "calls ?ex (new_events w w3) = 1"
    unfolding n using 1 2 3 by (simp_all add: enabled_def)
  with run show "\<exists>w'. RecycledRunProfile (Suc (Suc (Suc n))) env c w = Some (None, w')
           \<and> calls (MkdirAll ?tmp) (new_events w w') = 3
           \<and> ran (new_events w w') = filter (\<lambda>f. \<not> IsDisabled f) (Filters p)
           \<and> calls ?ex (new_events w w') = 1" by blast
qed

lemma ex4_simps:
  "outcome twice_interrupted_env h c = None"
  "statAnswer twice_interrupted_env h p = StatDir"
  "pollAnswer twice_interrupted_env h a = (polls h < 2)"
  "runAnswer twice_interrupted_env h f = (False, None)"
  by (simp_all add: twice_interrupted_env_def)

theorem interruption_loop_shape_witness:
  "(\<exists>w'. RunProfile 3 twice_interrupted_env example_context fresh_world = Some (None, w')
       \<and> calls (RemoveAll ''.regolith/tmp'') (new_events fresh_world w') = 3
       \<and> ran (new_events fresh_world w') = [LocalFilter ''B'' False []]
       \<and> calls (ExportProject
            \<lparr>Filters = [LocalFilter ''A'' True [], LocalFilter ''B'' False []], ExportTarget = ''local''\<rparr>
            ''pack'' ''packs/data'' ''.regolith'') (new_events fresh_world w') = 1)
   \<and> (\<exists>w'. RecycledRunProfile 3 twice_interrupted_env example_context fresh_world = Some (None, w')
       \<and> calls (MkdirAll ''.regolith/tmp'') (new_events fresh_world w') = 3
       \<and> ran (new_events fresh_world w') = [LocalFilter ''B'' False []]
       \<and> calls (RecycledExportProject
            \<lparr>Filters = [LocalFilter ''A'' True [], LocalFilter ''B'' False []], ExportTarget = ''local''\<rparr>
            ''pack'' ''packs/data'' ''.regolith'') (new_events fresh_world w') = 1)"
proof -
  have ok: "\<forall>h x. outcome twice_interrupted_env h x = None"
    and nofile: "\<forall>h q. statAnswer twice_interrupted_env h q \<noteq> StatFile"
    and clean: "\<forall>h f. runAnswer twice_interrupted_env h f = (False, None)"
    and sig: "\<forall>h a. pollAnswer twice_interrupted_env h a = (polls h < 2)"
    by (simp_all add: ex4_simps)
  have fresh: "polls (trace fresh_world) = 0" by (simp add: fresh_world_def)
  have three: "Suc (Suc (Suc 0)) = 3" by simp
  from interruption_loop_shape [OF ok nofile clean sig GetProfile_example fresh, of 0]
  show ?thesis
    by (simp add: example_context_simps Join_simps three)
qed













section \<open>Resolution of the sub-filters\<close>

declare show_nat.simps [simp del]

lemma CopyArguments_simps [simp]:
  "GetId (CopyArguments r parent) = GetId r"
  "Arguments (CopyArguments r parent) = Arguments parent"
  "IsDisabled (CopyArguments r parent) = IsDisabled r"
  "is_RemoteFilter (CopyArguments r parent) = is_RemoteFilter r"
  by (cases r; simp)+

text \<open>
  The loop returns a list exactly when every entry yields a runner that is not a remote filter,
  and the list is then made of these runners, in order, with the arguments of the parent; it
  stops with the error of the forbidden reference at the first entry that yields a remote filter.
\<close>

lemma subfilter_loop_Inr_iff:
  "subfilter_loop res f path i entries acc = Inr out \<longleftrightarrow>
     (\<forall>c\<in>set (children res f i entries). \<exists>r. c = Some r \<and> \<not> is_RemoteFilter r)
     \<and> out = acc @ map (\<lambda>c. CopyArguments (the c) f) (children res f i entries)"
proof (induction entries arbitrary: i acc)
  case Nil
  then show ?case by auto
next
  case (Cons e es)
  show ?case
  proof (cases "child res f i e")
    case None
    then have "\<exists>err. subfilter_loop res f path i (e # es) acc = Inl err"
      by (auto simp: child_def Let_def split: json.splits sum.splits)
    with None show ?thesis by auto
  next
    case (Some r)
    show ?thesis
    proof (cases "is_RemoteFilter r")
      case True
      with Some have "\<exists>err. subfilter_loop res f path i (e # es) acc = Inl err"
        by (auto simp: child_def Let_def split: json.splits sum.splits)
      with Some True show ?thesis by auto
    next
      case False
      with Some have "subfilter_loop res f path i (e # es) acc
          = subfilter_loop res f path (Suc i) es (acc @ [CopyArguments r f])"
        by (auto simp: child_def Let_def split: json.splits sum.splits)
      with Cons.IH [of "Suc i" "acc @ [CopyArguments r f]"] Some False show ?thesis by auto
    qed
  qed
qed

lemma subfilter_loop_remote:
  assumes "children res f i entries = map Some pre @ Some r # post"
    and "\<forall>x\<in>set pre. \<not> is_RemoteFilter x" and "is_RemoteFilter r"
  shows "subfilter_loop res f path i entries acc
           = Inl (WrappedErrorf nestedRemoteFilterError [GetId f, path, show_nat (i + length pre)])"
  using assms
proof (induction pre arbitrary: i entries acc)
  case Nil
  then obtain e es where es: "entries = e # es" "child res f i e = Some r"
    by (cases entries) auto
  with Nil(3) show ?case
    by (auto simp: child_def Let_def split: json.splits sum.splits)
next
  case (Cons x pre)
  then obtain e es where es: "entries = e # es" "child res f i e = Some x"
      "children res f (Suc i) es = map Some pre @ Some r # post"
    by (cases entries) auto
  from Cons.prems(2) have nx: "\<not> is_RemoteFilter x" and npre: "\<forall>x\<in>set pre. \<not> is_RemoteFilter x"
    by simp_all
  from es(2) nx have "subfilter_loop res f path i (e # es) acc
          = subfilter_loop res f path (Suc i) es (acc @ [CopyArguments x f])"
    by (auto simp: child_def Let_def split: json.splits sum.splits)
  with Cons.IH [OF es(3) npre Cons.prems(3), of "acc @ [CopyArguments x f]"] es(1)
  show ?case by simp
qed

lemma child_GetId:
  assumes "\<forall>inst obj r. CreateFilterRunner res inst obj = Inr r
              \<longrightarrow> map_of obj ''filter'' = Some (JString (GetId r))"
    and "child res f i e = Some r"
  shows "GetId r = GetId f @ '':subfilter'' @ show_nat i"
proof -
  from assms(2) obtain obj inst where
    "CreateFilterRunner res inst (AList.update ''filter'' (JString (GetId f @ '':subfilter'' @ show_nat i)) obj) = Inr r"
    by (auto simp: child_def split: json.splits sum.splits)
  with assms(1) have "map_of (AList.update ''filter'' (JString (GetId f @ '':subfilter'' @ show_nat i)) obj) ''filter''
      = Some (JString (GetId r))" by blast
  then show ?thesis by (simp add: update_conv')
qed

lemma children_GetId:
  assumes "\<forall>inst obj r. CreateFilterRunner res inst obj = Inr r
              \<longrightarrow> map_of obj ''filter'' = Some (JString (GetId r))"
    and "\<forall>c\<in>set (children res f i entries). \<exists>r. c = Some r"
  shows "map (\<lambda>c. GetId (the c)) (children res f i entries)
           = map (\<lambda>k. GetId f @ '':subfilter'' @ show_nat k) [i..<i + length entries]"
  using assms(2)
proof (induction entries arbitrary: i)
  case Nil
  then show ?case by simp
next
  case (Cons e es)
  then obtain r where r: "child res f i e = Some r" by auto
  have "[i..<Suc (i + length es)] = i # [Suc i..<Suc (i + length es)]"
    by (rule upt_conv_Cons) simp
  then have "[i..<i + length (e # es)] = i # [Suc i..<Suc i + length es]"
    by (simp del: upt_Suc)
  with Cons.IH [of "Suc i"] Cons.prems child_GetId [OF assms(1) r] r show ?case by simp
qed

lemma length_children [simp]: "length (children res f i entries) = length entries"
  by (induction entries arbitrary: i) simp_all

text \<open>
  C4. For a manifest that is read and parsed and whose \<^verbatim>\<open>filters\<close> member is an array of \<open>N\<close>
  entries: a collection that \<^verbatim>\<open>subfilterCollection\<close> returns has exactly \<open>N\<close> children, the
  child of the entry at index \<open>i\<close> being the runner created from that entry (with the identifier
  \<^verbatim>\<open>P:subfilter<i>\<close> given to the installer and stored under \<^verbatim>\<open>filter\<close> in the object given
  to the runner constructor) with the arguments of the parent copied onto it, so that every
  child carries the arguments of the parent; with a runner constructor that takes the identifier
  of the runner from the \<^verbatim>\<open>filter\<close> member of its object, the identifiers of the children are
  \<^verbatim>\<open>P:subfilter0\<close> to \<^verbatim>\<open>P:subfilter(N-1)\<close> in the order of the manifest; and a collection is
  returned whenever every entry yields a runner that is not a remote filter.
\<close>

theorem subfilterCollection_children:
  assumes "ReadFile res (filepath_Join (GetDownloadPath res f dot) ''filter.json'') = Inr file"
    and "Unmarshal res file = Inr manifest"
    and "map_of manifest ''filters'' = Some (JArray entries)"
  shows "(subfilterCollection res f dot = Inr coll \<longrightarrow>
            length (Filters coll) = length entries
          \<and> Filters coll = map (\<lambda>c. CopyArguments (the c) f) (children res f 0 entries)
          \<and> (\<forall>c\<in>set (Filters coll). Arguments c = Arguments f)
          \<and> ((\<forall>inst obj r. CreateFilterRunner res inst obj = Inr r
                  \<longrightarrow> map_of obj ''filter'' = Some (JString (GetId r))) \<longrightarrow>
              map GetId (Filters coll)
                = map (\<lambda>i. GetId f @ '':subfilter'' @ show_nat i) [0..<length entries]))
       \<and> ((\<forall>c\<in>set (children res f 0 entries). \<exists>r. c = Some r \<and> \<not> is_RemoteFilter r) \<longrightarrow>
            (\<exists>coll. subfilterCollection res f dot = Inr coll))"
proof (intro conjI impI)
  let ?path = "filepath_Join (GetDownloadPath res f dot) ''filter.json''"
  have unfold: "subfilterCollection res f dot =
      (case subfilter_loop res f ?path 0 entries [] of
         Inl err \<Rightarrow> Inl err | Inr result \<Rightarrow> Inr \<lparr>Filters = result\<rparr>)"
    using assms(1-3) by (simp add: subfilterCollection_def Let_def)
  {
    assume "subfilterCollection res f dot = Inr coll"
    with unfold have "subfilter_loop res f ?path 0 entries [] = Inr (Filters coll)"
      by (auto split: sum.splits)
    then have ok: "\<forall>c\<in>set (children res f 0 entries). \<exists>r. c = Some r \<and> \<not> is_RemoteFilter r"
      and fs: "Filters coll = map (\<lambda>c. CopyArguments (the c) f) (children res f 0 entries)"
      by (simp_all add: subfilter_loop_Inr_iff)
    from ok have some: "\<forall>c\<in>set (children res f 0 entries). \<exists>r. c = Some r" by blast
    show "length (Filters coll) = length entries" using fs by simp
    show "\<forall>c\<in>set (Filters coll). Arguments c = Arguments f" using fs by auto
    show "Filters coll = map (\<lambda>c. CopyArguments (the c) f) (children res f 0 entries)" by (rule fs)
    assume idkey: "\<forall>inst obj r. CreateFilterRunner res inst obj = Inr r
                  \<longrightarrow> map_of obj ''filter'' = Some (JString (GetId r))"
    show "map GetId (Filters coll)
              = map (\<lambda>i. GetId f @ '':subfilter'' @ show_nat i) [0..<length entries]"
      using children_GetId [OF idkey some] fs by (simp add: comp_def)
  }
  assume "\<forall>c\<in>set (children res f 0 entries). \<exists>r. c = Some r \<and> \<not> is_RemoteFilter r"
  then have "subfilter_loop res f ?path 0 entries []
      = Inr (map (\<lambda>c. CopyArguments (the c) f) (children res f 0 entries))"
    by (simp add: subfilter_loop_Inr_iff)
  with unfold show "\<exists>coll. subfilterCollection res f dot = Inr coll" by simp
qed

text \<open>
  C2. For a manifest that is read and parsed and whose \<^verbatim>\<open>filters\<close> member is an array: when
  the entries before some index yield runners that are not remote filters and the entry at that
  index yields a remote filter, \<^verbatim>\<open>subfilterCollection\<close> fails with the error of the forbidden
  reference to a remote filter inside a remote filter, naming the parent, the manifest and the
  index; and whenever any entry of the array yields a remote filter, at whatever position, no
  collection is returned.
\<close>

theorem subfilterCollection_rejects_remote:
  assumes "ReadFile res (filepath_Join (GetDownloadPath res f dot) ''filter.json'') = Inr file"
    and "Unmarshal res file = Inr manifest"
    and "map_of manifest ''filters'' = Some (JArray entries)"
  shows "(children res f 0 entries = map Some pre @ Some r # post
            \<and> (\<forall>x\<in>set pre. \<not> is_RemoteFilter x) \<and> is_RemoteFilter r \<longrightarrow>
          subfilterCollection res f dot
            = Inl (WrappedErrorf nestedRemoteFilterError
                     [GetId f, filepath_Join (GetDownloadPath res f dot) ''filter.json'',
                      show_nat (length pre)]))
       \<and> ((\<exists>r. Some r \<in> set (children res f 0 entries) \<and> is_RemoteFilter r) \<longrightarrow>
            (\<forall>coll. subfilterCollection res f dot \<noteq> Inr coll))"
proof (intro conjI impI allI)
  let ?path = "filepath_Join (GetDownloadPath res f dot) ''filter.json''"
  have unfold: "subfilterCollection res f dot =
      (case subfilter_loop res f ?path 0 entries [] of
         Inl err \<Rightarrow> Inl err | Inr result \<Rightarrow> Inr \<lparr>Filters = result\<rparr>)"
    using assms(1-3) by (simp add: subfilterCollection_def Let_def)
  {
    assume a: "children res f 0 entries = map Some pre @ Some r # post
            \<and> (\<forall>x\<in>set pre. \<not> is_RemoteFilter x) \<and> is_RemoteFilter r"
    then have "subfilter_loop res f ?path 0 entries []
        = Inl (WrappedErrorf nestedRemoteFilterError [GetId f, ?path, show_nat (0 + length pre)])"
      by (intro subfilter_loop_remote) auto
    with unfold show "subfilterCollection res f dot
        = Inl (WrappedErrorf nestedRemoteFilterError [GetId f, ?path, show_nat (length pre)])"
      by simp
  }
  fix coll :: FilterCollection
  assume "\<exists>r. Some r \<in> set (children res f 0 entries) \<and> is_RemoteFilter r"
  then have "\<not> (\<forall>c\<in>set (children res f 0 entries). \<exists>r. c = Some r \<and> \<not> is_RemoteFilter r)"
    by auto
  then have "subfilter_loop res f ?path 0 entries [] \<noteq> Inr (Filters coll)"
    by (simp add: subfilter_loop_Inr_iff)
  with unfold show "subfilterCollection res f dot \<noteq> Inr coll"
    by (auto split: sum.splits)
qed

lemma example_resolver_simps:
  "GetDownloadPath example_resolver f dot = filepath_Join dot (''cache/filters/'' @ GetId f)"
  "ReadFile example_resolver p =
     (if p = ''.regolith/cache/filters/P/filter.json'' then Inr ''local''
      else if p = ''.regolith/cache/filters/Q/filter.json'' then Inr ''nested''
      else Inl (External ''no such file''))"
  "Unmarshal example_resolver s =
     (if s = ''local''
      then Inr [(''filters'', JArray [JObject [(''runWith'', JString ''python'')],
                                      JObject [(''runWith'', JString ''nodejs'')]])]
      else Inr [(''filters'', JArray [JObject [(''runWith'', JString ''python'')],
                                      JObject [(''url'', JString ''github.com/x/y'')]])])"
  "FilterInstallerFromObject example_resolver filterId obj = Inr filterId"
  "CreateFilterRunner example_resolver inst obj =
     (case map_of obj ''filter'' of
        Some (JString s) \<Rightarrow>
          (case map_of obj ''url'' of
             Some (JString u) \<Rightarrow> Inr (RemoteFilter s False [] u)
           | _ \<Rightarrow> Inr (LocalFilter s False []))
      | _ \<Rightarrow> Inl (External ''no filter key''))"
  by (simp_all add: example_resolver_def)

lemma example_resolver_idkey:
  "\<forall>inst obj r. CreateFilterRunner example_resolver inst obj = Inr r
     \<longrightarrow> map_of obj ''filter'' = Some (JString (GetId r))"
  by (auto simp: example_resolver_simps split: option.splits json.splits)

lemma show_nat_small: "show_nat 0 = ''0''" "show_nat (Suc 0) = ''1''"
  by (simp_all add: show_nat.simps digit_def)

lemma path_P: "filepath_Join (GetDownloadPath example_resolver parent_P ''.regolith'') ''filter.json''
    = ''.regolith/cache/filters/P/filter.json''"
  by (simp add: example_resolver_simps Join_simps parent_P_def)

lemma path_Q: "filepath_Join (GetDownloadPath example_resolver parent_Q ''.regolith'') ''filter.json''
    = ''.regolith/cache/filters/Q/filter.json''"
  by (simp add: example_resolver_simps Join_simps parent_Q_def)

lemma children_P:
  "children example_resolver parent_P 0
     [JObject [(''runWith'', JString ''python'')], JObject [(''runWith'', JString ''nodejs'')]]
   = [Some (LocalFilter ''P:subfilter0'' False []), Some (LocalFilter ''P:subfilter1'' False [])]"
  by (simp add: child_def example_resolver_simps parent_P_def show_nat_small)

lemma children_Q:
  "children example_resolver parent_Q 0
     [JObject [(''runWith'', JString ''python'')], JObject [(''url'', JString ''github.com/x/y'')]]
   = [Some (LocalFilter ''Q:subfilter0'' False []),
      Some (RemoteFilter ''Q:subfilter1'' False [] ''github.com/x/y'')]"
  by (simp add: child_def example_resolver_simps parent_Q_def show_nat_small)

lemma subfilterCollection_P:
  "subfilterCollection example_resolver parent_P ''.regolith''
     = Inr \<lparr>Filters = [LocalFilter ''P:subfilter0'' False [''--fast''],
                       LocalFilter ''P:subfilter1'' False [''--fast'']]\<rparr>"
  by (simp add: subfilterCollection_def example_resolver_simps Join_simps parent_P_def
      show_nat_small Let_def)

theorem subfilterCollection_children_witness:
  "subfilterCollection example_resolver parent_P ''.regolith''
     = Inr \<lparr>Filters = [LocalFilter ''P:subfilter0'' False [''--fast''],
                       LocalFilter ''P:subfilter1'' False [''--fast'']]\<rparr>
   \<and> map GetId (Filters \<lparr>Filters = [LocalFilter ''P:subfilter0'' False [''--fast''],
                                     LocalFilter ''P:subfilter1'' False [''--fast'']]\<rparr>)
       = map (\<lambda>i. GetId parent_P @ '':subfilter'' @ show_nat i)
           [0..<length [JObject [(''runWith'', JString ''python'')],
                        JObject [(''runWith'', JString ''nodejs'')]]]
   \<and> map (\<lambda>i. GetId parent_P @ '':subfilter'' @ show_nat i) [0..<2]
       = [''P:subfilter0'', ''P:subfilter1'']
   \<and> Arguments parent_P = [''--fast'']"
proof -
  have rf: "ReadFile example_resolver
      (filepath_Join (GetDownloadPath example_resolver parent_P ''.regolith'') ''filter.json'')
      = Inr ''local''"
    unfolding path_P by (simp add: example_resolver_simps)
  have um: "Unmarshal example_resolver ''local''
      = Inr [(''filters'', JArray [JObject [(''runWith'', JString ''python'')],
                                   JObject [(''runWith'', JString ''nodejs'')]])]"
    by (simp add: example_resolver_simps)
  have mf: "map_of [(''filters'', JArray [JObject [(''runWith'', JString ''python'')],
                                   JObject [(''runWith'', JString ''nodejs'')]])] ''filters''
      = Some (JArray [JObject [(''runWith'', JString ''python'')],
                      JObject [(''runWith'', JString ''nodejs'')]])"
    by simp
  note T = subfilterCollection_children [OF rf um mf,
      THEN conjunct1, THEN mp, OF subfilterCollection_P]
  have "map (\<lambda>i. GetId parent_P @ '':subfilter'' @ show_nat i) [0..<2]
       = [''P:subfilter0'', ''P:subfilter1'']"
    by (simp add: upt_conv_Cons parent_P_def show_nat_small numeral_2_eq_2)
  moreover have "Arguments parent_P = [''--fast'']" by (simp add: parent_P_def)
  ultimately show ?thesis
    using subfilterCollection_P
      T [THEN conjunct2, THEN conjunct2, THEN conjunct2, THEN mp, OF example_resolver_idkey]
    by blast
qed

lemma subfilterCollection_Q:
  "subfilterCollection example_resolver parent_Q ''.regolith''
     = Inl (WrappedErrorf nestedRemoteFilterError
              [''Q'', ''.regolith/cache/filters/Q/filter.json'', ''1''])"
  by (simp add: subfilterCollection_def example_resolver_simps Join_simps parent_Q_def
      show_nat_small nestedRemoteFilterError_def Let_def)

theorem subfilterCollection_rejects_remote_witness:
  "children example_resolver parent_Q 0
     [JObject [(''runWith'', JString ''python'')], JObject [(''url'', JString ''github.com/x/y'')]]
   = map Some [LocalFilter ''Q:subfilter0'' False []]
       @ Some (RemoteFilter ''Q:subfilter1'' False [] ''github.com/x/y'') # []
   \<and> subfilterCollection example_resolver parent_Q ''.regolith''
       = Inl (WrappedErrorf nestedRemoteFilterError
                [GetId parent_Q,
                 filepath_Join (GetDownloadPath example_resolver parent_Q ''.regolith'') ''filter.json'',
                 show_nat (length [LocalFilter ''Q:subfilter0'' False []])])
   \<and> subfilterCollection example_resolver parent_Q ''.regolith''
       = Inl (WrappedErrorf nestedRemoteFilterError
                [''Q'', ''.regolith/cache/filters/Q/filter.json'', ''1''])"
proof -
  have rf: "ReadFile example_resolver
      (filepath_Join (GetDownloadPath example_resolver parent_Q ''.regolith'') ''filter.json'')
      = Inr ''nested''"
    unfolding path_Q by (simp add: example_resolver_simps)
  have um: "Unmarshal example_resolver ''nested''
      = Inr [(''filters'', JArray [JObject [(''runWith'', JString ''python'')],
                                   JObject [(''url'', JString ''github.com/x/y'')]])]"
    by (simp add: example_resolver_simps)
  have mf: "map_of [(''filters'', JArray [JObject [(''runWith'', JString ''python'')],
                                   JObject [(''url'', JString ''github.com/x/y'')]])] ''filters''
      = Some (JArray [JObject [(''runWith'', JString ''python'')],
                      JObject [(''url'', JString ''github.com/x/y'')]])"
    by simp
  have ch: "children example_resolver parent_Q 0
     [JObject [(''runWith'', JString ''python'')], JObject [(''url'', JString ''github.com/x/y'')]]
   = map Some [LocalFilter ''Q:subfilter0'' False []]
       @ Some (RemoteFilter ''Q:subfilter1'' False [] ''github.com/x/y'') # []"
    unfolding children_Q by simp
  have hyp: "children example_resolver parent_Q 0
     [JObject [(''runWith'', JString ''python'')], JObject [(''url'', JString ''github.com/x/y'')]]
   = map Some [LocalFilter ''Q:subfilter0'' False []]
       @ Some (RemoteFilter ''Q:subfilter1'' False [] ''github.com/x/y'') # []
     \<and> (\<forall>x\<in>set [LocalFilter ''Q:subfilter0'' False []]. \<not> is_RemoteFilter x)
     \<and> is_RemoteFilter (RemoteFilter ''Q:subfilter1'' False [] ''github.com/x/y'')"
    using ch by simp
  from subfilterCollection_rejects_remote [OF rf um mf, THEN conjunct1, THEN mp, OF hyp]
  have "subfilterCollection example_resolver parent_Q ''.regolith''
       = Inl (WrappedErrorf nestedRemoteFilterError
                [GetId parent_Q,
                 filepath_Join (GetDownloadPath example_resolver parent_Q ''.regolith'') ''filter.json'',
                 show_nat (length [LocalFilter ''Q:subfilter0'' False []])])" .
  with ch subfilterCollection_Q show ?thesis by blast
qed

end
